theory Spec2Isabelle
  imports Main
begin

section \<open>Data model of the purge workflow (workflows/purge.go)\<close>

text \<open>
  The workflow reads five fields of a \<open>common.Stack\<close>: \<open>Name\<close>, \<open>Status\<close>,
  \<open>StatusReason\<close>, \<open>Tags\<close> (a Go \<open>map[string]string\<close>) and \<open>LastUpdateTime\<close>, which it
  only hands to the table renderer. The slices hold pointers to stacks; the model holds
  the stacks themselves, so a slice never has a nil element.
\<close>

record stack =
  Name :: string
  Status :: string
  StatusReason :: string
  Tags :: "string \<rightharpoonup> string"
  LastUpdateTime :: nat

text \<open>
  A Go map read \<open>m[k]\<close> yields the zero value of the element type when the key is
  missing: for \<open>map[string]string\<close> the empty string.
\<close>

definition tag :: "stack \<Rightarrow> string \<Rightarrow> string" where
  "tag s k = (case Tags s k of None \<Rightarrow> [] | Some v \<Rightarrow> v)"

text \<open>
  \<open>common.StackType\<close> is a named type that purge.go converts with \<open>string(stackType)\<close>
  and compares with a tag value: a string type.
\<close>

type_synonym StackType = string

text \<open>
  Modelled from the spec: the values of the constants \<open>common.StackTypeService\<close>,
  \<open>common.StackTypeEnv\<close>, \<open>common.StackTypePipeline\<close> and \<open>common.StackTypeBucket\<close>, which
  purge.go names and package common declares. The spec gives the four classification
  values as \<open>service\<close>, \<open>environment\<close>, \<open>pipeline\<close> and \<open>bucket\<close>.
\<close>

definition StackTypeService :: StackType where
  "StackTypeService = ''service''"

definition StackTypeEnv :: StackType where
  "StackTypeEnv = ''environment''"

definition StackTypePipeline :: StackType where
  "StackTypePipeline = ''pipeline''"

definition StackTypeBucket :: StackType where
  "StackTypeBucket = ''bucket''"

text \<open>The constant \<open>cloudformation.StackStatusRollbackComplete\<close> of the AWS SDK.\<close>

definition StackStatusRollbackComplete :: string where
  "StackStatusRollbackComplete = ''ROLLBACK_COMPLETE''"


section \<open>The stack inventory filters\<close>

text \<open>
  \<open>removeStacksByStatus\<close>: the inner loop runs over every status and raises the flag
  \<open>found\<close> on a match, never lowering it; the outer loop appends the stack to \<open>ret\<close>
  when the flag stayed down.
\<close>

primrec statusFound :: "string \<Rightarrow> string list \<Rightarrow> bool \<Rightarrow> bool" where
  "statusFound st [] found = found"
| "statusFound st (status # statuses) found =
     statusFound st statuses (if st = status then True else found)"

primrec removeLoop :: "stack list \<Rightarrow> string list \<Rightarrow> stack list \<Rightarrow> stack list" where
  "removeLoop [] statuses ret = ret"
| "removeLoop (s # stacks) statuses ret =
     removeLoop stacks statuses
       (if \<not> statusFound (Status s) statuses False then ret @ [s] else ret)"

definition removeStacksByStatus :: "stack list \<Rightarrow> string list \<Rightarrow> stack list" where
  "removeStacksByStatus stacks statuses = removeLoop stacks statuses []"

text \<open>
  \<open>filterStacksByType\<close>: one loop, appending the stacks whose \<open>Tags["type"]\<close>, read as
  Go reads a map, equals the string of the stack type.
\<close>

primrec filterLoop :: "stack list \<Rightarrow> StackType \<Rightarrow> stack list \<Rightarrow> stack list" where
  "filterLoop [] stackType ret = ret"
| "filterLoop (s # stacks) stackType ret =
     filterLoop stacks stackType (if tag s ''type'' = stackType then ret @ [s] else ret)"

definition filterStacksByType :: "stack list \<Rightarrow> StackType \<Rightarrow> stack list" where
  "filterStacksByType stacks stackType = filterLoop stacks stackType []"



section \<open>Collaborators, events and state\<close>

text \<open>
  A Go \<open>error\<close> is either an \<open>awserr.Error\<close> (the type assertion of the workflow
  succeeds) or any other error; both carry a message.
\<close>

datatype error = AwsError string | OtherError string

text \<open>
  Of a resource the workflow reads \<open>PhysicalResourceId\<close> only: a string pointer, nil
  when the resource has no physical id. The workflow dereferences it unguarded.
\<close>

record resource =
  PhysicalResourceId :: "string option"

text \<open>
  A Go function either returns or panics; a nil pointer dereference panics, and nothing
  in purge.go recovers, so the panic ends every function on the call stack.
\<close>

datatype 'a outcome = Returns 'a | Panics

text \<open>
  An \<open>Executor\<close> is a Go \<open>func() error\<close>. The purge plan holds closures of thirteen
  kinds, named here by the method that builds each and the arguments that purge.go
  passes to it. Only \<open>bucketTerminator\<close> is defined in purge.go; the others belong to
  the service, environment and pipeline workflows.
\<close>

datatype executor =
    ServiceInput string
  | ServiceUndeployer string string
  | EnvironmentServiceTerminator string
  | EnvironmentDbTerminator string
  | EnvironmentEcsTerminator string string
  | EnvironmentConsulTerminator string string
  | EnvironmentRolesetTerminator string
  | EnvironmentElbTerminator string string
  | EnvironmentVpcTerminator string string
  | ServiceFinder string
  | PipelineTerminator string
  | PipelineRolesetTerminator
  | BucketTerminator stack

text \<open>The calls that leave the workflow, each with its arguments.\<close>

datatype call =
    ListStacksCall StackType
  | GetResourcesForStackCall stack
  | DeleteS3BucketObjectsCall string
  | DeleteStackCall string
  | AwaitFinalStatusCall string
  | DeleteS3BucketCall string
  | SiblingCall executor

text \<open>The lines the workflow writes to the log, one constructor for each log statement.\<close>

datatype log_entry =
    InfoResources "resource list"
  | DebugDeleteBucket string
  | ErrorDeleteStack error
  | ErrorEndedInFailedStatus string string
  | ErrorCouldntDeleteS3Bucket string error
  | WarningCouldntListStacks
  | InfoBucket string "string \<rightharpoonup> string"
  | InfoTotal nat nat
  | WarningExecutorFailed error

text \<open>
  What a run does to the outside, in order: calls, log lines and the progress table
  (a row holds the type tag, the name, status with reason, the reason and the update
  time; the formatting and colouring belong to the renderer).
\<close>

datatype event =
    Call call
  | Log log_entry
  | TableCreate
  | TableAppend string string "string \<times> string" string nat
  | TableRender

text \<open>
  The collaborators are Go interfaces; here each method is a function of the state
  \<open>'w\<close> of the world outside the workflow that returns its result and the next state,
  so an answer may depend on everything that happened before. A Go method that returns
  \<open>(value, error)\<close> returns the pair: nothing in purge.go stops a collaborator from
  returning a value together with an error. In \<open>purgeWorker\<close>
  every collaborator of the bucket workflow is \<open>ctx.StackManager\<close>; the physical bucket
  deletion is always \<open>ctx.StackManager.DeleteS3Bucket\<close> (the parameter \<open>bucketDeleter\<close>
  is never used). \<open>sibling\<close> runs an executor of the service, environment or pipeline
  workflow, whose code is outside purge.go.
\<close>

record 'w collab =
  ListStacks :: "StackType \<Rightarrow> 'w \<Rightarrow> (stack list \<times> error option) \<times> 'w"
  GetResourcesForStack :: "stack \<Rightarrow> 'w \<Rightarrow> (resource list \<times> error option) \<times> 'w"
  DeleteS3BucketObjects :: "string \<Rightarrow> 'w \<Rightarrow> error option \<times> 'w"
  DeleteStack :: "string \<Rightarrow> 'w \<Rightarrow> error option \<times> 'w"
  AwaitFinalStatus :: "string \<Rightarrow> 'w \<Rightarrow> stack option \<times> 'w"
  DeleteS3Bucket :: "string \<Rightarrow> 'w \<Rightarrow> error option \<times> 'w"
  sibling :: "executor \<Rightarrow> 'w \<Rightarrow> error option \<times> 'w"

text \<open>
  The context: \<open>ctx.Config.Namespace\<close>, and the value of the constant
  \<open>common.StackTypeAll\<close>, which purge.go passes to \<open>ListStacks\<close> and package common
  declares.
\<close>

record ctx =
  Namespace :: string
  StackTypeAll :: StackType

record 'w state =
  world :: 'w
  trace :: "event list"

definition emit :: "event \<Rightarrow> 'w state \<Rightarrow> 'w state" where
  "emit e st = \<lparr>world = world st, trace = trace st @ [e]\<rparr>"

definition invoke :: "call \<Rightarrow> ('w \<Rightarrow> 'r \<times> 'w) \<Rightarrow> 'w state \<Rightarrow> 'r \<times> 'w state" where
  "invoke cl f st =
     (case f (world st) of (r, w) \<Rightarrow> (r, \<lparr>world = w, trace = trace st @ [Call cl]\<rparr>))"


section \<open>The bucket termination workflow\<close>

text \<open>
  \<open>strings.HasSuffix\<close> of the Go library:
  \<open>len(s) >= len(suffix) && s[len(s)-len(suffix):] == suffix\<close>.
\<close>

definition HasSuffix :: "string \<Rightarrow> string \<Rightarrow> bool" where
  "HasSuffix s suffix =
     (length suffix \<le> length s \<and> drop (length s - length suffix) s = suffix)"

text \<open>
  Lines 105 to 110: empty every bucket. The id is dereferenced for the debug line, before
  anything is logged or called; the result of the call is dropped.
\<close>

primrec drainLoop ::
  "'w collab \<Rightarrow> resource list \<Rightarrow> 'w state \<Rightarrow> unit outcome \<times> 'w state" where
  "drainLoop c [] st = (Returns (), st)"
| "drainLoop c (r # resources) st =
     (case PhysicalResourceId r of
        None \<Rightarrow> (Panics, st)
      | Some fqBucketName \<Rightarrow>
          (let st1 = emit (Log (DebugDeleteBucket fqBucketName)) st;
               (dropped, st2) =
                 invoke (DeleteS3BucketObjectsCall fqBucketName)
                   (DeleteS3BucketObjects c fqBucketName) st1
           in drainLoop c resources st2))"

text \<open>Lines 112 to 119: delete the stack; an error is logged, in both branches.\<close>

definition deleteStackStep :: "'w collab \<Rightarrow> stack \<Rightarrow> 'w state \<Rightarrow> 'w state" where
  "deleteStackStep c bucket st =
     (let (err, st1) = invoke (DeleteStackCall (Name bucket)) (DeleteStack c (Name bucket)) st
      in case err of
           None \<Rightarrow> st1
         | Some e \<Rightarrow> emit (Log (ErrorDeleteStack e)) st1)"

text \<open>
  Lines 120 to 123: wait for the final status; log it when there is a stack and its
  status does not end in \<open>_COMPLETE\<close>.
\<close>

definition awaitStep :: "'w collab \<Rightarrow> stack \<Rightarrow> 'w state \<Rightarrow> 'w state" where
  "awaitStep c bucket st =
     (let (svcStack, st1) =
            invoke (AwaitFinalStatusCall (Name bucket)) (AwaitFinalStatus c (Name bucket)) st
      in case svcStack of
           None \<Rightarrow> st1
         | Some s \<Rightarrow>
             if \<not> HasSuffix (Status s) ''_COMPLETE''
             then emit (Log (ErrorEndedInFailedStatus (Status s) (StatusReason s))) st1
             else st1)"

text \<open>
  Lines 126 to 136: delete every bucket, dereferencing the id for the call; an error is
  logged and the loop goes on.
\<close>

primrec deleteBucketLoop ::
  "'w collab \<Rightarrow> resource list \<Rightarrow> 'w state \<Rightarrow> unit outcome \<times> 'w state" where
  "deleteBucketLoop c [] st = (Returns (), st)"
| "deleteBucketLoop c (r # resources) st =
     (case PhysicalResourceId r of
        None \<Rightarrow> (Panics, st)
      | Some fqBucketName \<Rightarrow>
          (let (err2, st1) =
                 invoke (DeleteS3BucketCall fqBucketName) (DeleteS3Bucket c fqBucketName) st
           in deleteBucketLoop c resources
                (case err2 of
                   None \<Rightarrow> st1
                 | Some e \<Rightarrow> emit (Log (ErrorCouldntDeleteS3Bucket fqBucketName e)) st1)))"

text \<open>
  The executor that \<open>bucketTerminator\<close> returns. The resources are logged as they came
  back, before the error is looked at.
\<close>

definition bucketTerminator ::
  "'w collab \<Rightarrow> stack \<Rightarrow> 'w state \<Rightarrow> error option outcome \<times> 'w state" where
  "bucketTerminator c bucket st =
     (let ((resources, err), st1) =
            invoke (GetResourcesForStackCall bucket) (GetResourcesForStack c bucket) st;
          st2 = emit (Log (InfoResources resources)) st1
      in case err of
           Some e \<Rightarrow> (Returns (Some e), st2)
         | None \<Rightarrow>
             (case drainLoop c resources st2 of
                (Panics, st3) \<Rightarrow> (Panics, st3)
              | (Returns u, st3) \<Rightarrow>
                  (case deleteBucketLoop c resources
                          (awaitStep c bucket (deleteStackStep c bucket st3)) of
                     (Panics, st4) \<Rightarrow> (Panics, st4)
                   | (Returns v, st4) \<Rightarrow> (Returns None, st4))))"


section \<open>Executor composition\<close>

text \<open>
  Running one executor of the plan. The executors of the other workflows are taken to
  return.
\<close>

definition runExecutor ::
  "'w collab \<Rightarrow> executor \<Rightarrow> 'w state \<Rightarrow> error option outcome \<times> 'w state" where
  "runExecutor c e st =
     (case e of
        BucketTerminator bucket \<Rightarrow> bucketTerminator c bucket st
      | _ \<Rightarrow> (let (err, st1) = invoke (SiblingCall e) (sibling c e) st in (Returns err, st1)))"

text \<open>
  Modelled from the spec: \<open>newPipelineExecutorNoStop\<close>, which purge.go calls and another
  file of package workflows defines. The spec, on continue-on-error composition: it
  executes every member in order regardless of prior failures; each failure is logged
  individually; the composite itself signals overall success once all members have run.
  A panic of a member is not a failure that is returned: it ends the composite too.
\<close>

primrec runNoStop ::
  "'w collab \<Rightarrow> executor list \<Rightarrow> 'w state \<Rightarrow> unit outcome \<times> 'w state" where
  "runNoStop c [] st = (Returns (), st)"
| "runNoStop c (e # executors) st =
     (case runExecutor c e st of
        (Panics, st1) \<Rightarrow> (Panics, st1)
      | (Returns err, st1) \<Rightarrow>
          runNoStop c executors
            (case err of
               None \<Rightarrow> st1
             | Some x \<Rightarrow> emit (Log (WarningExecutorFailed x)) st1))"

definition newPipelineExecutorNoStop ::
  "'w collab \<Rightarrow> executor list \<Rightarrow> 'w state \<Rightarrow> error option outcome \<times> 'w state" where
  "newPipelineExecutorNoStop c executors st =
     (case runNoStop c executors st of
        (Panics, st1) \<Rightarrow> (Panics, st1)
      | (Returns u, st1) \<Rightarrow> (Returns None, st1))"

text \<open>
  Modelled from the spec: \<open>newPipelineExecutor\<close>, which \<open>NewPurge\<close> calls and another
  file of package workflows defines. The spec, on stop-on-error composition: it executes
  each member in order; on the first failure, execution halts and that error is returned
  as the composite's result; no later member runs.
\<close>

primrec runStop ::
  "('w state \<Rightarrow> error option outcome \<times> 'w state) list \<Rightarrow> 'w state
     \<Rightarrow> error option outcome \<times> 'w state" where
  "runStop [] st = (Returns None, st)"
| "runStop (e # executors) st =
     (case e st of
        (Panics, st1) \<Rightarrow> (Panics, st1)
      | (Returns None, st1) \<Rightarrow> runStop executors st1
      | (Returns (Some x), st1) \<Rightarrow> (Returns (Some x), st1))"

definition newPipelineExecutor ::
  "('w state \<Rightarrow> error option outcome \<times> 'w state) list \<Rightarrow> 'w state
     \<Rightarrow> error option outcome \<times> 'w state" where
  "newPipelineExecutor executors st = runStop executors st"


section \<open>The purge orchestrator\<close>

text \<open>
  Lines 158 to 170: one table row for every stack that has a \<open>type\<close> tag (the two-value
  map read tells a missing tag from an empty one), counting the rows.
\<close>

primrec tableLoop :: "stack list \<Rightarrow> nat \<Rightarrow> 'w state \<Rightarrow> nat \<times> 'w state" where
  "tableLoop [] stackCount st = (stackCount, st)"
| "tableLoop (s # stacks) stackCount st =
     (case Tags s ''type'' of
        Some stackType \<Rightarrow>
          tableLoop stacks (stackCount + 1)
            (emit (TableAppend stackType (Name s) (Status s, StatusReason s)
                     (StatusReason s) (LastUpdateTime s)) st)
      | None \<Rightarrow> tableLoop stacks stackCount st)"

text \<open>Lines 183 to 186: two executors for every service stack.\<close>

primrec serviceLoop :: "ctx \<Rightarrow> stack list \<Rightarrow> executor list \<Rightarrow> executor list" where
  "serviceLoop cx [] executors = executors"
| "serviceLoop cx (s # stacks) executors =
     (let executors1 = executors @ [ServiceInput (tag s ''service'')];
          executors2 = executors1 @ [ServiceUndeployer (Namespace cx) (tag s ''environment'')]
      in serviceLoop cx stacks executors2)"

text \<open>Lines 190 to 201: seven executors for every environment stack.\<close>

primrec environmentLoop :: "ctx \<Rightarrow> stack list \<Rightarrow> executor list \<Rightarrow> executor list" where
  "environmentLoop cx [] executors = executors"
| "environmentLoop cx (s # stacks) executors =
     (let envName = tag s ''environment'';
          executors1 = executors @ [EnvironmentServiceTerminator envName];
          executors2 = executors1 @ [EnvironmentDbTerminator envName];
          executors3 = executors2 @ [EnvironmentEcsTerminator (Namespace cx) envName];
          executors4 = executors3 @ [EnvironmentConsulTerminator (Namespace cx) envName];
          executors5 = executors4 @ [EnvironmentRolesetTerminator envName];
          executors6 = executors5 @ [EnvironmentElbTerminator (Namespace cx) envName];
          executors7 = executors6 @ [EnvironmentVpcTerminator (Namespace cx) envName]
      in environmentLoop cx stacks executors7)"

text \<open>Lines 205 to 210: three executors for every pipeline stack.\<close>

primrec pipelineLoop :: "ctx \<Rightarrow> stack list \<Rightarrow> executor list \<Rightarrow> executor list" where
  "pipelineLoop cx [] executors = executors"
| "pipelineLoop cx (codePipeline # stacks) executors =
     (let executors1 = executors @ [ServiceFinder (tag codePipeline ''service'')];
          executors2 = executors1 @ [PipelineTerminator (Namespace cx)];
          executors3 = executors2 @ [PipelineRolesetTerminator]
      in pipelineLoop cx stacks executors3)"

text \<open>Lines 214 to 219: a log line and one bucket workflow for every bucket stack.\<close>

primrec bucketLoop ::
  "stack list \<Rightarrow> executor list \<Rightarrow> 'w state \<Rightarrow> executor list \<times> 'w state" where
  "bucketLoop [] executors st = (executors, st)"
| "bucketLoop (bucket # stacks) executors st =
     bucketLoop stacks (executors @ [BucketTerminator bucket])
       (emit (Log (InfoBucket (Name bucket) (Tags bucket))) st)"

text \<open>
  Lines 174 to 219: the plan of a run, assembled from the stacks left by the status
  filter.
\<close>

definition assemble :: "ctx \<Rightarrow> stack list \<Rightarrow> 'w state \<Rightarrow> executor list \<times> 'w state" where
  "assemble cx stacks st =
     (let executors1 = serviceLoop cx (filterStacksByType stacks StackTypeService) [];
          executors2 = environmentLoop cx (filterStacksByType stacks StackTypeEnv) executors1;
          executors3 = pipelineLoop cx (filterStacksByType stacks StackTypePipeline) executors2
      in bucketLoop (filterStacksByType stacks StackTypeBucket) executors3 st)"

text \<open>
  Lines 150 to 154: the inventory of a run. An error of the lister is logged as a
  warning, and the run goes on with the slice that came back with it.
\<close>

definition listAll :: "'w collab \<Rightarrow> ctx \<Rightarrow> 'w state \<Rightarrow> stack list \<times> 'w state" where
  "listAll c cx st =
     (let ((stacks, err), st1) =
            invoke (ListStacksCall (StackTypeAll cx)) (ListStacks c (StackTypeAll cx)) st
      in case err of
           Some e \<Rightarrow> (stacks, emit (Log WarningCouldntListStacks) st1)
         | None \<Rightarrow> (stacks, st1))"

text \<open>
  The executor that \<open>purgeWorker\<close> returns: the result of the composed executor is
  dropped, and the worker returns nil.
\<close>

definition purgeWorker ::
  "'w collab \<Rightarrow> ctx \<Rightarrow> 'w state \<Rightarrow> error option outcome \<times> 'w state" where
  "purgeWorker c cx st =
     (let (listed, st1) = listAll c cx st;
          stacks = removeStacksByStatus listed [StackStatusRollbackComplete];
          st2 = emit TableCreate st1;
          (stackCount, st3) = tableLoop stacks 0 st2;
          st4 = emit TableRender st3;
          (executors, st5) = assemble cx stacks st4;
          st6 = emit (Log (InfoTotal stackCount (length executors))) st5
      in case newPipelineExecutorNoStop c executors st6 of
           (Panics, st7) \<Rightarrow> (Panics, st7)
         | (Returns dropped, st7) \<Rightarrow> (Returns None, st7))"

text \<open>\<open>NewPurge\<close>: the purge worker alone in a stop-on-error pipeline.\<close>

definition NewPurge ::
  "'w collab \<Rightarrow> ctx \<Rightarrow> 'w state \<Rightarrow> error option outcome \<times> 'w state" where
  "NewPurge c cx st = newPipelineExecutor [purgeWorker c cx] st"


section \<open>Observations on a trace\<close>

text \<open>The calls of a trace, in order.\<close>

fun callsOf :: "event list \<Rightarrow> call list" where
  "callsOf [] = []"
| "callsOf (Call cl # es) = cl # callsOf es"
| "callsOf (e # es) = callsOf es"

text \<open>
  The executor that a call starts: a sibling executor is one call, and the bucket
  workflow starts by resolving the resources of its stack and never resolves them again.
\<close>

fun started :: "call \<Rightarrow> executor option" where
  "started (SiblingCall e) = Some e"
| "started (GetResourcesForStackCall bucket) = Some (BucketTerminator bucket)"
| "started cl = None"

definition startedExecutors :: "event list \<Rightarrow> executor list" where
  "startedExecutors tr = List.map_filter started (callsOf tr)"

fun isDrain :: "call \<Rightarrow> bool" where
  "isDrain (DeleteS3BucketObjectsCall b) = True"
| "isDrain cl = False"

fun isBucketDelete :: "call \<Rightarrow> bool" where
  "isBucketDelete (DeleteS3BucketCall b) = True"
| "isBucketDelete cl = False"

fun isEndedInFailedStatus :: "event \<Rightarrow> bool" where
  "isEndedInFailedStatus (Log (ErrorEndedInFailedStatus status reason)) = True"
| "isEndedInFailedStatus e = False"

fun isExecutorFailed :: "event \<Rightarrow> bool" where
  "isExecutorFailed (Log (WarningExecutorFailed x)) = True"
| "isExecutorFailed e = False"

text \<open>The steps that the plan holds for one stack of each kind.\<close>

definition serviceSteps :: "ctx \<Rightarrow> stack \<Rightarrow> executor list" where
  "serviceSteps cx s =
     [ServiceInput (tag s ''service''), ServiceUndeployer (Namespace cx) (tag s ''environment'')]"

definition environmentSteps :: "ctx \<Rightarrow> stack \<Rightarrow> executor list" where
  "environmentSteps cx s =
     [EnvironmentServiceTerminator (tag s ''environment''),
      EnvironmentDbTerminator (tag s ''environment''),
      EnvironmentEcsTerminator (Namespace cx) (tag s ''environment''),
      EnvironmentConsulTerminator (Namespace cx) (tag s ''environment''),
      EnvironmentRolesetTerminator (tag s ''environment''),
      EnvironmentElbTerminator (Namespace cx) (tag s ''environment''),
      EnvironmentVpcTerminator (Namespace cx) (tag s ''environment'')]"

definition pipelineSteps :: "ctx \<Rightarrow> stack \<Rightarrow> executor list" where
  "pipelineSteps cx s =
     [ServiceFinder (tag s ''service''), PipelineTerminator (Namespace cx),
      PipelineRolesetTerminator]"

text \<open>The events of emptying the bucket of one id: the debug line and the call.\<close>

definition drainEvents :: "string \<Rightarrow> event list" where
  "drainEvents n = [Log (DebugDeleteBucket n), Call (DeleteS3BucketObjectsCall n)]"

text \<open>
  The same collaborators, except that emptying a bucket reports no error; what the call
  does to the world is unchanged.
\<close>

definition drainSucceeds :: "'w collab \<Rightarrow> 'w collab" where
  "drainSucceeds c =
     c\<lparr>DeleteS3BucketObjects := \<lambda>n w. (None, snd (DeleteS3BucketObjects c n w))\<rparr>"

text \<open>
  The world after the collaborators have served, one after the other, what the bucket
  workflow asks of them once the lookup has answered in the world \<open>w1\<close> with the ids
  \<open>ns\<close>: \<open>DeleteS3BucketObjects\<close> for each id, \<open>DeleteStack\<close>, \<open>AwaitFinalStatus\<close>,
  \<open>DeleteS3Bucket\<close> for each id.
\<close>

definition bucketWorld :: "'w collab \<Rightarrow> stack \<Rightarrow> string list \<Rightarrow> 'w \<Rightarrow> 'w" where
  "bucketWorld c bucket ns w1 =
     foldl (\<lambda>w n. snd (DeleteS3Bucket c n w))
       (snd (AwaitFinalStatus c (Name bucket)
          (snd (DeleteStack c (Name bucket)
             (foldl (\<lambda>w n. snd (DeleteS3BucketObjects c n w)) w1 ns)))))
       ns"

text \<open>
  The collaborators whose resources all carry a physical id, whenever they are looked up
  without an error.
\<close>

definition idsPresent :: "'w collab \<Rightarrow> bool" where
  "idsPresent c =
     (\<forall>bucket w. snd (fst (GetResourcesForStack c bucket w)) = None \<longrightarrow>
        (\<forall>r \<in> set (fst (fst (GetResourcesForStack c bucket w))). PhysicalResourceId r \<noteq> None))"

text \<open>
  Continue-on-error composition in the spec's words, written over the collaborators
  alone, to compare the run with: every member is executed in order regardless of prior
  failures. \<open>stepOutcome\<close> is what one executor returns and the world it leaves when
  the resources carry their ids: a sibling executor is its one call; the bucket workflow
  returns the error of the lookup, or nil after serving the whole workflow.
  \<open>everyStep\<close> runs every executor of a plan, each in the world the one before left,
  and collects what each returned.
\<close>

definition stepOutcome :: "'w collab \<Rightarrow> executor \<Rightarrow> 'w \<Rightarrow> error option \<times> 'w" where
  "stepOutcome c e w =
     (case e of
        BucketTerminator bucket \<Rightarrow>
          (case GetResourcesForStack c bucket w of
             ((resources, Some err), w1) \<Rightarrow> (Some err, w1)
           | ((resources, None), w1) \<Rightarrow>
               (None, bucketWorld c bucket (List.map_filter PhysicalResourceId resources) w1))
      | _ \<Rightarrow> sibling c e w)"

primrec everyStep :: "'w collab \<Rightarrow> executor list \<Rightarrow> 'w \<Rightarrow> error option list \<times> 'w" where
  "everyStep c [] w = ([], w)"
| "everyStep c (e # executors) w =
     (let (r, w1) = stepOutcome c e w;
          (rs, w2) = everyStep c executors w1
      in (r # rs, w2))"

text \<open>The warnings that a list of returned errors leaves in the log.\<close>

definition failureLog :: "error option list \<Rightarrow> event list" where
  "failureLog rs = map (\<lambda>x. Log (WarningExecutorFailed x)) (List.map_filter (\<lambda>r. r) rs)"


section \<open>Example inventories and collaborators\<close>

text \<open>
  One stack of each kind, all of the environment \<open>prod\<close>, and a stack with no tags.
\<close>

definition svcWeb :: stack where
  "svcWeb = \<lparr>Name = ''svc-web'', Status = ''UPDATE_COMPLETE'', StatusReason = [],
     Tags = [''type'' \<mapsto> ''service'', ''service'' \<mapsto> ''web'', ''environment'' \<mapsto> ''prod''],
     LastUpdateTime = 0\<rparr>"

definition envProd :: stack where
  "envProd = \<lparr>Name = ''env-prod'', Status = ''CREATE_COMPLETE'', StatusReason = [],
     Tags = [''type'' \<mapsto> ''environment'', ''environment'' \<mapsto> ''prod''],
     LastUpdateTime = 0\<rparr>"

definition pipeWeb :: stack where
  "pipeWeb = \<lparr>Name = ''pipe-web'', Status = ''CREATE_COMPLETE'', StatusReason = [],
     Tags = [''type'' \<mapsto> ''pipeline'', ''service'' \<mapsto> ''web'', ''environment'' \<mapsto> ''prod''],
     LastUpdateTime = 0\<rparr>"

definition logsBucket :: stack where
  "logsBucket = \<lparr>Name = ''logs-bucket'', Status = ''CREATE_COMPLETE'', StatusReason = [],
     Tags = [''type'' \<mapsto> ''bucket'', ''environment'' \<mapsto> ''prod''],
     LastUpdateTime = 0\<rparr>"

definition untagged :: stack where
  "untagged = \<lparr>Name = ''stray'', Status = ''CREATE_COMPLETE'', StatusReason = [],
     Tags = Map.empty, LastUpdateTime = 0\<rparr>"

text \<open>The two buckets of the stack \<open>logs-bucket\<close>.\<close>

definition logsResources :: "resource list" where
  "logsResources =
     [\<lparr>PhysicalResourceId = Some ''logs-a''\<rparr>, \<lparr>PhysicalResourceId = Some ''logs-b''\<rparr>]"

definition muCtx :: ctx where
  "muCtx = \<lparr>Namespace = ''mu'', StackTypeAll = ''all''\<rparr>"

text \<open>
  A stack manager that lists the given inventory and whose every other call fails; the
  world counts the calls it has answered.
\<close>

definition failingManager :: "stack list \<Rightarrow> nat collab" where
  "failingManager inventory =
     \<lparr>ListStacks = \<lambda>t w. ((inventory, None), Suc w),
      GetResourcesForStack = \<lambda>s w. ((logsResources, None), Suc w),
      DeleteS3BucketObjects = \<lambda>n w. (Some (OtherError ''drain failed''), Suc w),
      DeleteStack = \<lambda>n w. (Some (AwsError ''ValidationError''), Suc w),
      AwaitFinalStatus = \<lambda>n w.
        (Some (logsBucket\<lparr>Status := ''DELETE_FAILED'', StatusReason := ''not empty''\<rparr>), Suc w),
      DeleteS3Bucket = \<lambda>n w. (Some (AwsError ''BucketNotEmpty''), Suc w),
      sibling = \<lambda>e w. (Some (OtherError ''step failed''), Suc w)\<rparr>"

text \<open>
  A stack manager that can list neither stacks nor resources and returns nil slices with
  its errors.
\<close>

definition offlineManager :: "nat collab" where
  "offlineManager =
     \<lparr>ListStacks = \<lambda>t w. (([], Some (AwsError ''RequestError'')), Suc w),
      GetResourcesForStack = \<lambda>s w. (([], Some (AwsError ''RequestError'')), Suc w),
      DeleteS3BucketObjects = \<lambda>n w. (None, Suc w),
      DeleteStack = \<lambda>n w. (None, Suc w),
      AwaitFinalStatus = \<lambda>n w. (None, Suc w),
      DeleteS3Bucket = \<lambda>n w. (None, Suc w),
      sibling = \<lambda>e w. (None, Suc w)\<rparr>"

text \<open>
  A stack manager whose listing fails after the first page: it returns the stack it has
  read together with the error.
\<close>

definition interruptedManager :: "nat collab" where
  "interruptedManager =
     offlineManager\<lparr>ListStacks := \<lambda>t w. (([svcWeb], Some (AwsError ''Throttling'')), Suc w)\<rparr>"

text \<open>A stack manager whose every call succeeds.\<close>

definition succeedingManager :: "nat collab" where
  "succeedingManager =
     \<lparr>ListStacks = \<lambda>t w. (([logsBucket], None), Suc w),
      GetResourcesForStack = \<lambda>s w. ((logsResources, None), Suc w),
      DeleteS3BucketObjects = \<lambda>n w. (None, Suc w),
      DeleteStack = \<lambda>n w. (None, Suc w),
      AwaitFinalStatus = \<lambda>n w.
        (Some (logsBucket\<lparr>Status := ''DELETE_COMPLETE''\<rparr>), Suc w),
      DeleteS3Bucket = \<lambda>n w. (None, Suc w),
      sibling = \<lambda>e w. (None, Suc w)\<rparr>"

text \<open>
  A stack manager that refuses to delete the stack, whose last update was rolled back;
  the stack stays as it is, and that is its final status.
\<close>

definition refusingManager :: "nat collab" where
  "refusingManager =
     succeedingManager
       \<lparr>DeleteStack := \<lambda>n w. (Some (AwsError ''AccessDenied''), Suc w),
        AwaitFinalStatus := \<lambda>n w.
          (Some (logsBucket\<lparr>Status := ''UPDATE_ROLLBACK_COMPLETE'',
                               StatusReason := ''update failed''\<rparr>), Suc w)\<rparr>"

definition start :: "nat state" where
  "start = \<lparr>world = 0, trace = []\<rparr>"


section \<open>The inventory filters\<close>

lemma statusFound_iff: "statusFound st statuses found \<longleftrightarrow> found \<or> st \<in> set statuses"
  by (induction statuses arbitrary: found) auto

lemma removeLoop_filter:
  "removeLoop stacks statuses ret = ret @ filter (\<lambda>s. Status s \<notin> set statuses) stacks"
  by (induction stacks arbitrary: ret) (simp_all add: statusFound_iff)

lemma filterLoop_filter:
  "filterLoop stacks stackType ret = ret @ filter (\<lambda>s. tag s ''type'' = stackType) stacks"
  by (induction stacks arbitrary: ret) simp_all

lemma removeStacksByStatus_filter:
  "removeStacksByStatus stacks statuses = filter (\<lambda>s. Status s \<notin> set statuses) stacks"
  by (simp add: removeStacksByStatus_def removeLoop_filter)

lemma filterStacksByType_filter:
  "filterStacksByType stacks stackType = filter (\<lambda>s. tag s ''type'' = stackType) stacks"
  by (simp add: filterStacksByType_def filterLoop_filter)

lemma filterStacksByType_present:
  "T \<noteq> [] \<Longrightarrow> filterStacksByType S T = filter (\<lambda>s. Tags s ''type'' = Some T) S"
proof -
  assume "T \<noteq> []"
  then have "(tag s ''type'' = T) = (Tags s ''type'' = Some T)" for s
    by (auto simp: tag_def split: option.splits)
  then show ?thesis by (simp add: filterStacksByType_filter)
qed

text \<open>
  Claim C5. For all stack sequences \<open>S\<close> and exclusion lists \<open>E\<close>,
  \<open>removeStacksByStatus S E\<close> is the subsequence of \<open>S\<close> of exactly the stacks whose
  \<open>Status\<close> is not a member of \<open>E\<close>, in their original relative order, and with the
  empty exclusion list the result is \<open>S\<close> itself.
\<close>

theorem removeStacksByStatus_spec:
  "removeStacksByStatus S E = filter (\<lambda>s. Status s \<notin> set E) S
   \<and> removeStacksByStatus S [] = S"
  by (simp add: removeStacksByStatus_def removeLoop_filter)

text \<open>
  Claim C4, as amended. For all stack sequences \<open>S\<close> and type values \<open>T\<close>,
  \<open>filterStacksByType S T\<close> is the subsequence of \<open>S\<close>, in original relative order, of
  exactly the stacks whose \<open>type\<close> tag, read as Go reads a map (a missing tag reads as
  the empty string), equals \<open>T\<close>. For every non-empty \<open>T\<close> these are exactly the stacks
  that carry a \<open>type\<close> tag equal to \<open>T\<close>, and a stack with no \<open>type\<close> tag is never
  selected. For the empty type value the claim as written fails: a stack with no
  \<open>type\<close> tag is selected, as the counterexample shows.
\<close>

theorem filterStacksByType_spec:
  "filterStacksByType S T = filter (\<lambda>s. tag s ''type'' = T) S
   \<and> (T \<noteq> [] \<longrightarrow>
        filterStacksByType S T = filter (\<lambda>s. Tags s ''type'' = Some T) S
        \<and> (\<forall>s \<in> set (filterStacksByType S T). Tags s ''type'' \<noteq> None))"
  by (auto simp: filterStacksByType_present) (simp add: filterStacksByType_filter)

theorem filterStacksByType_spec_witness:
  "''service'' \<noteq> [] \<and> Tags untagged ''type'' = None
   \<and> filterStacksByType [untagged, svcWeb, envProd, svcWeb] ''service'' = [svcWeb, svcWeb]"
  using filterStacksByType_spec [of "[untagged, svcWeb, envProd, svcWeb]" "''service''"]
  by (simp add: untagged_def svcWeb_def envProd_def tag_def)

theorem filterStacksByType_untagged_counterexample:
  "Tags untagged ''type'' = None \<and> filterStacksByType [untagged] [] = [untagged]"
  by (simp add: filterStacksByType_def untagged_def tag_def)


section \<open>Traces and worlds of the bucket workflow\<close>

lemma trace_emit: "trace (emit e st) = trace st @ [e]"
  by (simp add: emit_def)

lemma world_emit: "world (emit e st) = world st"
  by (simp add: emit_def)

lemma trace_invoke: "trace (snd (invoke cl f st)) = trace st @ [Call cl]"
  by (simp add: invoke_def split_def)

lemma world_invoke: "world (snd (invoke cl f st)) = snd (f (world st))"
  by (simp add: invoke_def split_def)

lemma callsOf_append: "callsOf (xs @ ys) = callsOf xs @ callsOf ys"
  by (induction xs rule: callsOf.induct) simp_all

lemma ids_Cons:
  "map PhysicalResourceId (r # rs) = map Some ns \<Longrightarrow>
   \<exists>n ms. ns = n # ms \<and> PhysicalResourceId r = Some n \<and> map PhysicalResourceId rs = map Some ms"
  by (cases ns) auto

lemma ids_present:
  "(\<forall>r \<in> set rs. PhysicalResourceId r \<noteq> None) \<Longrightarrow>
   map PhysicalResourceId rs = map Some (List.map_filter PhysicalResourceId rs)"
  by (induction rs) (auto simp: List.map_filter_simps)

lemma drainLoop_present:
  "map PhysicalResourceId rs = map Some ns \<Longrightarrow>
   drainLoop c rs st =
     (Returns (),
      \<lparr>world = foldl (\<lambda>w n. snd (DeleteS3BucketObjects c n w)) (world st) ns,
       trace = trace st @ concat (map drainEvents ns)\<rparr>)"
proof (induction rs arbitrary: ns st)
  case Nil
  then show ?case by simp
next
  case (Cons r rs)
  from ids_Cons [OF Cons.prems] obtain n ms where
    n: "ns = n # ms" "PhysicalResourceId r = Some n" "map PhysicalResourceId rs = map Some ms"
    by blast
  show ?case
    by (simp add: n Cons.IH [OF n(3)] Let_def split_def world_invoke trace_invoke
        world_emit trace_emit drainEvents_def)
qed

lemma fst_deleteBucketLoop:
  "map PhysicalResourceId rs = map Some ns \<Longrightarrow> fst (deleteBucketLoop c rs st) = Returns ()"
proof (induction rs arbitrary: ns st)
  case Nil
  then show ?case by simp
next
  case (Cons r rs)
  from ids_Cons [OF Cons.prems] obtain n ms where
    n: "ns = n # ms" "PhysicalResourceId r = Some n" "map PhysicalResourceId rs = map Some ms"
    by blast
  show ?case
    by (simp add: n Cons.IH [OF n(3)] Let_def split_def)
qed

lemma world_deleteBucketLoop:
  "map PhysicalResourceId rs = map Some ns \<Longrightarrow>
   world (snd (deleteBucketLoop c rs st)) =
   foldl (\<lambda>w n. snd (DeleteS3Bucket c n w)) (world st) ns"
proof (induction rs arbitrary: ns st)
  case Nil
  then show ?case by simp
next
  case (Cons r rs)
  from ids_Cons [OF Cons.prems] obtain n ms where
    n: "ns = n # ms" "PhysicalResourceId r = Some n" "map PhysicalResourceId rs = map Some ms"
    by blast
  show ?case
    by (simp add: n Cons.IH [OF n(3)] Let_def split_def world_invoke world_emit
        split: option.split)
qed

lemma calls_deleteBucketLoop:
  "map PhysicalResourceId rs = map Some ns \<Longrightarrow>
   callsOf (trace (snd (deleteBucketLoop c rs st))) =
   callsOf (trace st) @ map DeleteS3BucketCall ns"
proof (induction rs arbitrary: ns st)
  case Nil
  then show ?case by simp
next
  case (Cons r rs)
  from ids_Cons [OF Cons.prems] obtain n ms where
    n: "ns = n # ms" "PhysicalResourceId r = Some n" "map PhysicalResourceId rs = map Some ms"
    by blast
  show ?case
    by (simp add: n Cons.IH [OF n(3)] Let_def split_def trace_invoke trace_emit callsOf_append
        split: option.split)
qed

lemma calls_drainEvents: "callsOf (concat (map drainEvents ns)) = map DeleteS3BucketObjectsCall ns"
  by (induction ns) (simp_all add: drainEvents_def)

lemma calls_deleteStackStep:
  "callsOf (trace (deleteStackStep c b st)) = callsOf (trace st) @ [DeleteStackCall (Name b)]"
  by (simp add: deleteStackStep_def Let_def split_def trace_invoke trace_emit callsOf_append
      split: option.split)

lemma world_deleteStackStep:
  "world (deleteStackStep c b st) = snd (DeleteStack c (Name b) (world st))"
  by (simp add: deleteStackStep_def Let_def split_def world_invoke world_emit
      split: option.split)

lemma calls_awaitStep:
  "callsOf (trace (awaitStep c b st)) = callsOf (trace st) @ [AwaitFinalStatusCall (Name b)]"
  by (simp add: awaitStep_def Let_def split_def trace_invoke trace_emit callsOf_append
      split: option.split)

lemma world_awaitStep:
  "world (awaitStep c b st) = snd (AwaitFinalStatus c (Name b) (world st))"
  by (simp add: awaitStep_def Let_def split_def world_invoke world_emit
      split: option.split)

lemma bucketTerminator_failed:
  "GetResourcesForStack c b (world st) = ((rs, Some e), w1) \<Longrightarrow>
   bucketTerminator c b st =
     (Returns (Some e),
      \<lparr>world = w1,
       trace = trace st @ [Call (GetResourcesForStackCall b), Log (InfoResources rs)]\<rparr>)"
  by (simp add: bucketTerminator_def invoke_def emit_def)

lemma bucketTerminator_present:
  assumes "GetResourcesForStack c b (world st) = ((rs, None), w1)"
    and "map PhysicalResourceId rs = map Some ns"
  shows "bucketTerminator c b st =
     (Returns None,
      snd (deleteBucketLoop c rs (awaitStep c b (deleteStackStep c b
        (snd (drainLoop c rs
           \<lparr>world = w1,
            trace = trace st @ [Call (GetResourcesForStackCall b),
                                Log (InfoResources rs)]\<rparr>))))))"
proof -
  let ?st2 = "\<lparr>world = w1,
            trace = trace st @ [Call (GetResourcesForStackCall b), Log (InfoResources rs)]\<rparr>"
  let ?w = "awaitStep c b (deleteStackStep c b (snd (drainLoop c rs ?st2)))"
  have d: "drainLoop c rs ?st2 = (Returns (), snd (drainLoop c rs ?st2))"
    by (simp add: drainLoop_present [OF assms(2)])
  have k: "deleteBucketLoop c rs ?w = (Returns (), snd (deleteBucketLoop c rs ?w))"
    using fst_deleteBucketLoop [OF assms(2), of c ?w]
    by (cases "deleteBucketLoop c rs ?w") simp
  have "bucketTerminator c b st =
     (case drainLoop c rs ?st2 of
        (Panics, st3) \<Rightarrow> (Panics, st3)
      | (Returns u, st3) \<Rightarrow>
          (case deleteBucketLoop c rs (awaitStep c b (deleteStackStep c b st3)) of
             (Panics, st4) \<Rightarrow> (Panics, st4)
           | (Returns v, st4) \<Rightarrow> (Returns None, st4)))"
    by (simp add: bucketTerminator_def invoke_def emit_def assms(1))
  also have "\<dots> = (Returns None, snd (deleteBucketLoop c rs ?w))"
    by (subst d) (simp, subst k, simp)
  finally show ?thesis .
qed

lemma calls_bucketTerminator_present:
  assumes "GetResourcesForStack c b (world st) = ((rs, None), w1)"
    and "map PhysicalResourceId rs = map Some ns"
  shows "callsOf (trace (snd (bucketTerminator c b st))) =
     callsOf (trace st) @ [GetResourcesForStackCall b]
       @ map DeleteS3BucketObjectsCall ns
       @ [DeleteStackCall (Name b), AwaitFinalStatusCall (Name b)]
       @ map DeleteS3BucketCall ns"
  by (simp add: bucketTerminator_present [OF assms] calls_deleteBucketLoop [OF assms(2)]
      calls_awaitStep calls_deleteStackStep drainLoop_present [OF assms(2)] callsOf_append
      calls_drainEvents)

lemma world_bucketTerminator_present:
  assumes "GetResourcesForStack c b (world st) = ((rs, None), w1)"
    and "map PhysicalResourceId rs = map Some ns"
  shows "world (snd (bucketTerminator c b st)) = bucketWorld c b ns w1"
  by (simp add: bucketTerminator_present [OF assms] world_deleteBucketLoop [OF assms(2)]
      world_awaitStep world_deleteStackStep drainLoop_present [OF assms(2)] bucketWorld_def)

lemma drains_unchanged: "filter isDrain (map DeleteS3BucketObjectsCall ns) = map DeleteS3BucketObjectsCall ns"
  by (induction ns) simp_all

lemma drains_none: "filter isDrain (map DeleteS3BucketCall ns) = []"
  by (induction ns) simp_all

lemma deletes_unchanged: "filter isBucketDelete (map DeleteS3BucketCall ns) = map DeleteS3BucketCall ns"
  by (induction ns) simp_all

lemma deletes_none: "filter isBucketDelete (map DeleteS3BucketObjectsCall ns) = []"
  by (induction ns) simp_all

lemma before_deleteStack:
  "takeWhile (\<lambda>cl. cl \<noteq> DeleteStackCall n) (map DeleteS3BucketObjectsCall ns @ DeleteStackCall n # rest) =
   map DeleteS3BucketObjectsCall ns"
  by (induction ns) simp_all

text \<open>
  Claim C2. Let the lookup answer without an error, in the world \<open>w1\<close>, with the resources
  \<open>rs\<close>, and let every resource carry its physical id: the ids are \<open>ns\<close>. Then the
  workflow returns nil, and its calls are: the lookup, one \<open>DeleteS3BucketObjects\<close> for
  each id in order, \<open>DeleteStack\<close>, \<open>AwaitFinalStatus\<close>, one \<open>DeleteS3Bucket\<close> for each id
  in order. The calls are served: the world it leaves is the one that these
  collaborators leave when each is applied in this order to the world the one before
  left. So the buckets are emptied exactly \<open>length rs\<close> times, all of them before the
  stack deletion is requested, and the physical deletion is attempted exactly
  \<open>length rs\<close> times, whatever \<open>DeleteStack\<close>, the wait or any other collaborator answers.
\<close>

theorem bucket_drains_then_deletes:
  assumes "GetResourcesForStack c b (world st) = ((rs, None), w1)"
    and "map PhysicalResourceId rs = map Some ns"
  shows "let cs = GetResourcesForStackCall b
                    # map DeleteS3BucketObjectsCall ns
                    @ DeleteStackCall (Name b) # AwaitFinalStatusCall (Name b)
                    # map DeleteS3BucketCall ns;
             emptied = foldl (\<lambda>w n. snd (DeleteS3BucketObjects c n w)) w1 ns;
             deleted = snd (DeleteStack c (Name b) emptied);
             waited = snd (AwaitFinalStatus c (Name b) deleted)
         in fst (bucketTerminator c b st) = Returns None
            \<and> callsOf (trace (snd (bucketTerminator c b st))) = callsOf (trace st) @ cs
            \<and> world (snd (bucketTerminator c b st)) =
                foldl (\<lambda>w n. snd (DeleteS3Bucket c n w)) waited ns
            \<and> length (filter isDrain cs) = length rs
            \<and> filter isDrain (takeWhile (\<lambda>cl. cl \<noteq> DeleteStackCall (Name b)) cs) =
                map DeleteS3BucketObjectsCall ns
            \<and> length (filter isBucketDelete cs) = length rs
            \<and> filter isBucketDelete cs = map DeleteS3BucketCall ns"
proof -
  have l: "length ns = length rs"
    using assms(2) by (metis length_map)
  have w: "world (snd (bucketTerminator c b st)) = bucketWorld c b ns w1"
    by (rule world_bucketTerminator_present [OF assms])
  have f: "fst (bucketTerminator c b st) = Returns None"
    by (simp add: bucketTerminator_present [OF assms])
  show ?thesis
    unfolding Let_def
    by (simp add: calls_bucketTerminator_present [OF assms] before_deleteStack drains_unchanged
        drains_none deletes_unchanged deletes_none l f)
       (simp add: w bucketWorld_def)
qed

theorem bucket_drains_then_deletes_witness:
  "map PhysicalResourceId logsResources = map Some [''logs-a'', ''logs-b'']
   \<and> fst (bucketTerminator (failingManager []) logsBucket start) = Returns None
   \<and> callsOf (trace (snd (bucketTerminator (failingManager []) logsBucket start))) =
     [GetResourcesForStackCall logsBucket,
      DeleteS3BucketObjectsCall ''logs-a'', DeleteS3BucketObjectsCall ''logs-b'',
      DeleteStackCall ''logs-bucket'', AwaitFinalStatusCall ''logs-bucket'',
      DeleteS3BucketCall ''logs-a'', DeleteS3BucketCall ''logs-b'']
   \<and> world (snd (bucketTerminator (failingManager []) logsBucket start)) = 7
   \<and> fst (DeleteStack (failingManager []) ''logs-bucket'' 3) = Some (AwsError ''ValidationError'')"
proof -
  have h: "GetResourcesForStack (failingManager []) logsBucket (world start) =
           ((logsResources, None), 1)"
    by (simp add: failingManager_def start_def)
  have i: "map PhysicalResourceId logsResources = map Some [''logs-a'', ''logs-b'']"
    by (simp add: logsResources_def)
  show ?thesis
    using bucket_drains_then_deletes [OF h i]
    by (simp add: Let_def start_def logsResources_def logsBucket_def failingManager_def)
qed


section \<open>Errors in the bucket workflow\<close>

text \<open>
  Claim C10. When \<open>GetResourcesForStack\<close> returns an error, the bucket workflow returns
  that error, and all it has done is the lookup itself and the info line that logs the
  resources that came back. Whenever the workflow returns an error, it is the error of
  the lookup.
\<close>

theorem resource_lookup_error_returned:
  "(GetResourcesForStack c b (world st) = ((rs, Some e), w1) \<longrightarrow>
      bucketTerminator c b st =
        (Returns (Some e),
         \<lparr>world = w1,
          trace = trace st @ [Call (GetResourcesForStackCall b), Log (InfoResources rs)]\<rparr>))
   \<and> (fst (bucketTerminator c b st) = Returns (Some e) \<longrightarrow>
        snd (fst (GetResourcesForStack c b (world st))) = Some e)"
proof (intro conjI impI)
  assume "GetResourcesForStack c b (world st) = ((rs, Some e), w1)"
  then show "bucketTerminator c b st =
        (Returns (Some e),
         \<lparr>world = w1,
          trace = trace st @ [Call (GetResourcesForStackCall b), Log (InfoResources rs)]\<rparr>)"
    by (rule bucketTerminator_failed)
next
  assume r: "fst (bucketTerminator c b st) = Returns (Some e)"
  obtain xs err w where g: "GetResourcesForStack c b (world st) = ((xs, err), w)"
    by (cases "GetResourcesForStack c b (world st)") auto
  show "snd (fst (GetResourcesForStack c b (world st))) = Some e"
  proof (cases err)
    case (Some x)
    with g r show ?thesis by (simp add: bucketTerminator_failed)
  next
    case None
    with g r show ?thesis
      by (simp add: bucketTerminator_def invoke_def split: prod.splits outcome.splits)
  qed
qed

theorem resource_lookup_error_returned_witness:
  "bucketTerminator offlineManager logsBucket start =
     (Returns (Some (AwsError ''RequestError'')),
      \<lparr>world = 1,
       trace = [Call (GetResourcesForStackCall logsBucket), Log (InfoResources [])]\<rparr>)
   \<and> GetResourcesForStack offlineManager logsBucket 0 = (([], Some (AwsError ''RequestError'')), 1)"
  using resource_lookup_error_returned
    [of offlineManager logsBucket start "[]" "AwsError ''RequestError''" 1]
  by (simp add: offlineManager_def start_def)

lemma drainLoop_drainSucceeds: "drainLoop (drainSucceeds c) rs st = drainLoop c rs st"
  by (induction rs arbitrary: st)
     (simp_all add: drainSucceeds_def invoke_def split_def Let_def split: option.split)

lemma bucketTerminator_drainSucceeds:
  "bucketTerminator (drainSucceeds c) b st = bucketTerminator c b st"
proof -
  have a: "deleteStackStep (drainSucceeds c) = deleteStackStep c"
    by (intro ext) (simp add: deleteStackStep_def drainSucceeds_def)
  have b: "awaitStep (drainSucceeds c) = awaitStep c"
    by (intro ext) (simp add: awaitStep_def drainSucceeds_def)
  have "deleteBucketLoop (drainSucceeds c) rs s = deleteBucketLoop c rs s" for rs s
    by (induction rs arbitrary: s) (simp_all add: drainSucceeds_def split: option.split)
  then have d: "deleteBucketLoop (drainSucceeds c) = deleteBucketLoop c"
    by (intro ext)
  have e: "drainLoop (drainSucceeds c) = drainLoop c"
    by (intro ext) (rule drainLoop_drainSucceeds)
  have g: "GetResourcesForStack (drainSucceeds c) = GetResourcesForStack c"
    by (simp add: drainSucceeds_def)
  show ?thesis
    unfolding bucketTerminator_def a b d e g by (rule refl)
qed

lemma prefix_deleteBucketLoop: "\<exists>xs. trace (snd (deleteBucketLoop c rs st)) = trace st @ xs"
proof (induction rs arbitrary: st)
  case Nil
  show ?case by simp
next
  case (Cons r rs)
  show ?case
  proof (cases "PhysicalResourceId r")
    case None
    then show ?thesis by simp
  next
    case (Some n)
    define st2 where "st2 =
      (case fst (invoke (DeleteS3BucketCall n) (DeleteS3Bucket c n) st) of
         None \<Rightarrow> snd (invoke (DeleteS3BucketCall n) (DeleteS3Bucket c n) st)
       | Some e \<Rightarrow> emit (Log (ErrorCouldntDeleteS3Bucket n e))
           (snd (invoke (DeleteS3BucketCall n) (DeleteS3Bucket c n) st)))"
    have a: "\<exists>ys. trace st2 = trace st @ ys"
      by (simp add: st2_def trace_invoke trace_emit split: option.split)
    have b: "deleteBucketLoop c (r # rs) st = deleteBucketLoop c rs st2"
      by (simp add: Some st2_def Let_def split_def)
    from Cons.IH [of st2] a b show ?thesis by auto
  qed
qed

lemma prefix_awaitStep:
  "\<exists>xs. trace (awaitStep c b st) = trace st @ Call (AwaitFinalStatusCall (Name b)) # xs"
  by (simp add: awaitStep_def Let_def split_def trace_invoke trace_emit split: option.split)

lemma prefix_deleteStackStep:
  "\<exists>xs. trace (deleteStackStep c b st) = trace st @ Call (DeleteStackCall (Name b)) # xs"
  by (simp add: deleteStackStep_def Let_def split_def trace_invoke trace_emit split: option.split)

text \<open>
  Claim C9. The error of \<open>DeleteS3BucketObjects\<close> is dropped: the workflow does exactly
  what it does when every such call reports success and changes the world in the same
  way. When the lookup succeeds with resources that carry their ids, it returns nil, and
  after the resource lookup its trace holds, for each id in order, the debug line and
  the call and nothing else, followed at once by the request to delete the stack.
\<close>

theorem drain_error_discarded:
  "bucketTerminator c b st = bucketTerminator (drainSucceeds c) b st
   \<and> (GetResourcesForStack c b (world st) = ((rs, None), w1)
        \<and> map PhysicalResourceId rs = map Some ns \<longrightarrow>
        fst (bucketTerminator c b st) = Returns None
        \<and> (\<exists>rest. trace (snd (bucketTerminator c b st)) =
              trace st @ [Call (GetResourcesForStackCall b), Log (InfoResources rs)]
                @ concat (map (\<lambda>n. [Log (DebugDeleteBucket n),
                                       Call (DeleteS3BucketObjectsCall n)]) ns)
                @ Call (DeleteStackCall (Name b)) # rest))"
proof (intro conjI impI)
  show "bucketTerminator c b st = bucketTerminator (drainSucceeds c) b st"
    by (simp add: bucketTerminator_drainSucceeds)
next
  assume a: "GetResourcesForStack c b (world st) = ((rs, None), w1)
        \<and> map PhysicalResourceId rs = map Some ns"
  then have g: "GetResourcesForStack c b (world st) = ((rs, None), w1)"
    and i: "map PhysicalResourceId rs = map Some ns" by simp_all
  let ?st2 = "\<lparr>world = w1,
      trace = trace st @ [Call (GetResourcesForStackCall b), Log (InfoResources rs)]\<rparr>"
  let ?d = "snd (drainLoop c rs ?st2)"
  have d: "trace ?d = trace st @ [Call (GetResourcesForStackCall b), Log (InfoResources rs)]
             @ concat (map drainEvents ns)"
    by (simp add: drainLoop_present [OF i])
  obtain xs where x: "trace (deleteStackStep c b ?d) = trace ?d @ Call (DeleteStackCall (Name b)) # xs"
    using prefix_deleteStackStep by blast
  obtain ys where y: "trace (awaitStep c b (deleteStackStep c b ?d)) =
      trace (deleteStackStep c b ?d) @ Call (AwaitFinalStatusCall (Name b)) # ys"
    using prefix_awaitStep by blast
  obtain zs where z: "trace (snd (deleteBucketLoop c rs (awaitStep c b (deleteStackStep c b ?d)))) =
      trace (awaitStep c b (deleteStackStep c b ?d)) @ zs"
    using prefix_deleteBucketLoop by blast
  have e: "drainEvents = (\<lambda>n. [Log (DebugDeleteBucket n), Call (DeleteS3BucketObjectsCall n)])"
    by (rule ext) (simp add: drainEvents_def)
  show "fst (bucketTerminator c b st) = Returns None"
    by (simp add: bucketTerminator_present [OF g i])
  have "trace (snd (bucketTerminator c b st)) =
           trace st @ [Call (GetResourcesForStackCall b), Log (InfoResources rs)]
             @ concat (map drainEvents ns)
             @ Call (DeleteStackCall (Name b)) # (xs @ Call (AwaitFinalStatusCall (Name b)) # ys @ zs)"
    by (simp add: bucketTerminator_present [OF g i] z y x d)
  then show "\<exists>rest. trace (snd (bucketTerminator c b st)) =
              trace st @ [Call (GetResourcesForStackCall b), Log (InfoResources rs)]
                @ concat (map (\<lambda>n. [Log (DebugDeleteBucket n),
                                       Call (DeleteS3BucketObjectsCall n)]) ns)
                @ Call (DeleteStackCall (Name b)) # rest"
    unfolding e by blast
qed

theorem drain_error_discarded_witness:
  "fst (DeleteS3BucketObjects (failingManager []) ''logs-a'' 1) = Some (OtherError ''drain failed'')
   \<and> bucketTerminator (failingManager []) logsBucket start =
       bucketTerminator (drainSucceeds (failingManager [])) logsBucket start
   \<and> fst (bucketTerminator (failingManager []) logsBucket start) = Returns None
   \<and> take 7 (trace (snd (bucketTerminator (failingManager []) logsBucket start))) =
       [Call (GetResourcesForStackCall logsBucket), Log (InfoResources logsResources),
        Log (DebugDeleteBucket ''logs-a''), Call (DeleteS3BucketObjectsCall ''logs-a''),
        Log (DebugDeleteBucket ''logs-b''), Call (DeleteS3BucketObjectsCall ''logs-b''),
        Call (DeleteStackCall ''logs-bucket'')]"
proof -
  have h: "GetResourcesForStack (failingManager []) logsBucket (world start) =
           ((logsResources, None), 1)
           \<and> map PhysicalResourceId logsResources = map Some [''logs-a'', ''logs-b'']"
    by (simp add: failingManager_def start_def logsResources_def)
  have s: "trace start = []" by (simp add: start_def)
  have n: "Name logsBucket = ''logs-bucket''" by (simp add: logsBucket_def)
  from drain_error_discarded
    [of "failingManager []" logsBucket start logsResources 1 "[''logs-a'', ''logs-b'']"] h
  show ?thesis
    by (auto simp: s n) (simp add: failingManager_def)
qed

lemma failed_drainEvents: "filter isEndedInFailedStatus (concat (map drainEvents ns)) = []"
  by (induction ns) (simp_all add: drainEvents_def)

lemma failed_deleteStackStep:
  "filter isEndedInFailedStatus (trace (deleteStackStep c b st)) =
   filter isEndedInFailedStatus (trace st)"
  by (simp add: deleteStackStep_def Let_def split_def trace_invoke trace_emit
      split: option.split)

lemma failed_deleteBucketLoop:
  "filter isEndedInFailedStatus (trace (snd (deleteBucketLoop c rs st))) =
   filter isEndedInFailedStatus (trace st)"
  by (induction rs arbitrary: st)
     (simp_all add: Let_def split_def trace_invoke trace_emit split: option.split)

lemma awaitStep_eq:
  "AwaitFinalStatus c (Name b) (world st) = (final, w2) \<Longrightarrow>
   awaitStep c b st =
     \<lparr>world = w2,
      trace = trace st @ Call (AwaitFinalStatusCall (Name b))
        # (case final of
             None \<Rightarrow> []
           | Some s \<Rightarrow>
               if HasSuffix (Status s) ''_COMPLETE'' then []
               else [Log (ErrorEndedInFailedStatus (Status s) (StatusReason s))])\<rparr>"
  by (simp add: awaitStep_def invoke_def emit_def split: option.split)

text \<open>
  Claim C8, as amended. Let the lookup succeed with resources that carry their ids, let
  \<open>waiting\<close> be the state of the workflow when it starts to wait, and let
  \<open>AwaitFinalStatus\<close> answer \<open>final\<close>. When \<open>final\<close> is a stack whose status does not end
  in \<open>_COMPLETE\<close>, the workflow logs that status with its reason; when the status ends
  in \<open>_COMPLETE\<close>, or there is no stack, it logs no failed status. In every case it goes
  on to delete each bucket and returns nil. The claim as written fails for a status
  that ends in \<open>_COMPLETE\<close> without being a success, such as
  \<open>UPDATE_ROLLBACK_COMPLETE\<close>: it is not logged, as the counterexample shows.
\<close>

theorem failed_final_status_logged:
  assumes "GetResourcesForStack c b (world st) = ((rs, None), w1)"
    and "map PhysicalResourceId rs = map Some ns"
    and "waiting = deleteStackStep c b (snd (drainLoop c rs
           \<lparr>world = w1,
            trace = trace st @ [Call (GetResourcesForStackCall b), Log (InfoResources rs)]\<rparr>))"
    and "AwaitFinalStatus c (Name b) (world waiting) = (final, w2)"
  shows "let logged = (case final of
                         None \<Rightarrow> []
                       | Some s \<Rightarrow>
                           if HasSuffix (Status s) ''_COMPLETE'' then []
                           else [Log (ErrorEndedInFailedStatus (Status s) (StatusReason s))])
         in bucketTerminator c b st =
              (Returns None,
               snd (deleteBucketLoop c rs
                 \<lparr>world = w2,
                  trace = trace waiting @ Call (AwaitFinalStatusCall (Name b)) # logged\<rparr>))
            \<and> filter isEndedInFailedStatus (trace (snd (bucketTerminator c b st))) =
                filter isEndedInFailedStatus (trace st) @ logged
            \<and> callsOf (trace (snd (bucketTerminator c b st))) =
                callsOf (trace waiting) @ AwaitFinalStatusCall (Name b)
                  # map DeleteS3BucketCall ns"
proof -
  let ?logged = "(case final of
                         None \<Rightarrow> []
                       | Some s \<Rightarrow>
                           if HasSuffix (Status s) ''_COMPLETE'' then []
                           else [Log (ErrorEndedInFailedStatus (Status s) (StatusReason s))])"
  let ?after = "\<lparr>world = w2,
                  trace = trace waiting @ Call (AwaitFinalStatusCall (Name b)) # ?logged\<rparr>"
  have w: "awaitStep c b waiting = ?after"
    by (rule awaitStep_eq [OF assms(4)])
  have t: "bucketTerminator c b st =
             (Returns None, snd (deleteBucketLoop c rs (awaitStep c b waiting)))"
    by (simp add: bucketTerminator_present [OF assms(1,2)] assms(3))
  have f: "filter isEndedInFailedStatus (trace waiting) = filter isEndedInFailedStatus (trace st)"
    by (simp add: assms(3) failed_deleteStackStep drainLoop_present [OF assms(2)]
        failed_drainEvents)
  have l: "filter isEndedInFailedStatus ?logged = ?logged"
    by (simp split: option.split)
  have c1: "bucketTerminator c b st = (Returns None, snd (deleteBucketLoop c rs ?after))"
    by (simp only: t w)
  have c2: "filter isEndedInFailedStatus (trace (snd (bucketTerminator c b st))) =
                filter isEndedInFailedStatus (trace st) @ ?logged"
    by (simp only: c1 snd_conv failed_deleteBucketLoop state.simps filter_append
        filter.simps isEndedInFailedStatus.simps f l if_False)
  have k: "callsOf ?logged = []"
    by (simp split: option.split)
  have c3: "callsOf (trace (snd (bucketTerminator c b st))) =
                callsOf (trace waiting) @ AwaitFinalStatusCall (Name b)
                  # map DeleteS3BucketCall ns"
    by (simp add: c1 calls_deleteBucketLoop [OF assms(2)] callsOf_append k)
  show ?thesis
    unfolding Let_def using c1 c2 c3 by blast
qed

theorem failed_final_status_logged_witness:
  "\<not> HasSuffix ''DELETE_FAILED'' ''_COMPLETE''
   \<and> filter isEndedInFailedStatus
       (trace (snd (bucketTerminator (failingManager []) logsBucket start))) =
       [Log (ErrorEndedInFailedStatus ''DELETE_FAILED'' ''not empty'')]
   \<and> fst (bucketTerminator (failingManager []) logsBucket start) = Returns None"
proof -
  define waiting where "waiting = deleteStackStep (failingManager []) logsBucket
     (snd (drainLoop (failingManager []) logsResources
           \<lparr>world = 1,
            trace = trace start @ [Call (GetResourcesForStackCall logsBucket),
                                   Log (InfoResources logsResources)]\<rparr>))"
  have h1: "GetResourcesForStack (failingManager []) logsBucket (world start) =
           ((logsResources, None), 1)"
    by (simp add: failingManager_def start_def)
  have h2: "map PhysicalResourceId logsResources = map Some [''logs-a'', ''logs-b'']"
    by (simp add: logsResources_def)
  have h4: "AwaitFinalStatus (failingManager []) (Name logsBucket) (world waiting) =
     (Some (logsBucket\<lparr>Status := ''DELETE_FAILED'', StatusReason := ''not empty''\<rparr>),
      Suc (world waiting))"
    by (simp add: failingManager_def)
  have s: "trace start = []" by (simp add: start_def)
  note t = failed_final_status_logged [OF h1 h2 waiting_def h4, unfolded Let_def]
  have a: "fst (bucketTerminator (failingManager []) logsBucket start) = Returns None"
    using t by simp
  have b: "filter isEndedInFailedStatus
       (trace (snd (bucketTerminator (failingManager []) logsBucket start))) =
       [Log (ErrorEndedInFailedStatus ''DELETE_FAILED'' ''not empty'')]"
    using conjunct1 [OF conjunct2 [OF t]] by (simp add: HasSuffix_def s)
  from a b show ?thesis by (simp add: HasSuffix_def)
qed

lemmas run_bucket = bucketTerminator_def invoke_def emit_def Let_def deleteStackStep_def
  awaitStep_def HasSuffix_def

theorem rolled_back_status_counterexample:
  "fst (DeleteStack refusingManager ''logs-bucket'' 3) = Some (AwsError ''AccessDenied'')
   \<and> fst (AwaitFinalStatus refusingManager ''logs-bucket'' 4) =
       Some (logsBucket\<lparr>Status := ''UPDATE_ROLLBACK_COMPLETE'',
                          StatusReason := ''update failed''\<rparr>)
   \<and> filter isEndedInFailedStatus
       (trace (snd (bucketTerminator refusingManager logsBucket start))) = []"
  by (simp add: run_bucket refusingManager_def succeedingManager_def logsResources_def
      start_def logsBucket_def)

text \<open>
  Without the id of a resource the workflow panics at the first dereference, before it
  asks for the stack to be deleted.
\<close>

lemma nil_id_panics:
  "bucketTerminator
     (succeedingManager
        \<lparr>GetResourcesForStack := \<lambda>s w. (([\<lparr>PhysicalResourceId = None\<rparr>], None), Suc w)\<rparr>)
     logsBucket start =
   (Panics,
    \<lparr>world = 1,
     trace = [Call (GetResourcesForStackCall logsBucket),
              Log (InfoResources [\<lparr>PhysicalResourceId = None\<rparr>])]\<rparr>)"
  by (simp add: run_bucket succeedingManager_def start_def)

lemma succeeded_status_not_logged:
  "HasSuffix ''DELETE_COMPLETE'' ''_COMPLETE''
   \<and> filter isEndedInFailedStatus
       (trace (snd (bucketTerminator succeedingManager logsBucket start))) = []"
  by (simp add: run_bucket succeedingManager_def logsResources_def start_def logsBucket_def)


section \<open>The plan of a purge run\<close>

lemma serviceLoop_eq:
  "serviceLoop cx ss ex = ex @ concat (map (serviceSteps cx) ss)"
  by (induction ss arbitrary: ex) (simp_all add: serviceSteps_def Let_def)

lemma environmentLoop_eq:
  "environmentLoop cx ss ex = ex @ concat (map (environmentSteps cx) ss)"
  by (induction ss arbitrary: ex) (simp_all add: environmentSteps_def Let_def)

lemma pipelineLoop_eq:
  "pipelineLoop cx ss ex = ex @ concat (map (pipelineSteps cx) ss)"
  by (induction ss arbitrary: ex) (simp_all add: pipelineSteps_def Let_def)

lemma fst_bucketLoop:
  "fst (bucketLoop bs ex st) = ex @ map BucketTerminator bs"
  by (induction bs arbitrary: ex st) simp_all

lemma snd_bucketLoop:
  "snd (bucketLoop bs ex st) =
   \<lparr>world = world st,
    trace = trace st @ map (\<lambda>b. Log (InfoBucket (Name b) (Tags b))) bs\<rparr>"
  by (induction bs arbitrary: ex st) (simp_all add: emit_def)

lemma fst_assemble:
  "fst (assemble cx S st) =
     concat (map (serviceSteps cx) (filterStacksByType S StackTypeService))
     @ concat (map (environmentSteps cx) (filterStacksByType S StackTypeEnv))
     @ concat (map (pipelineSteps cx) (filterStacksByType S StackTypePipeline))
     @ map BucketTerminator (filterStacksByType S StackTypeBucket)"
  by (simp add: assemble_def Let_def fst_bucketLoop serviceLoop_eq environmentLoop_eq
      pipelineLoop_eq)

lemma snd_assemble:
  "snd (assemble cx S st) =
   \<lparr>world = world st,
    trace = trace st @ map (\<lambda>b. Log (InfoBucket (Name b) (Tags b)))
                         (filterStacksByType S StackTypeBucket)\<rparr>"
  by (simp add: assemble_def Let_def snd_bucketLoop)

lemmas stack_consts = StackTypeService_def StackTypeEnv_def StackTypePipeline_def
  StackTypeBucket_def StackStatusRollbackComplete_def

text \<open>
  Claim C1. For every inventory, the plan assembled from the stacks that the status
  filter leaves is ordered by stack kind: first the two steps of every service stack,
  then for every environment stack the seven steps service terminator, database
  terminator, ECS (container cluster) terminator, Consul (discovery agent) terminator,
  role-set terminator, load-balancer terminator and VPC terminator in this order, then
  the three steps of every pipeline stack, then one bucket workflow for every bucket
  stack; within a kind the stacks keep the order of the inventory.
\<close>

theorem purge_plan_order:
  "fst (assemble cx (removeStacksByStatus inventory [StackStatusRollbackComplete]) st) =
     (let stacks = removeStacksByStatus inventory [StackStatusRollbackComplete]
      in concat (map (serviceSteps cx) (filterStacksByType stacks StackTypeService))
         @ concat (map (environmentSteps cx) (filterStacksByType stacks StackTypeEnv))
         @ concat (map (pipelineSteps cx) (filterStacksByType stacks StackTypePipeline))
         @ map BucketTerminator (filterStacksByType stacks StackTypeBucket))"
  by (simp add: fst_assemble Let_def)

theorem purge_plan_order_witness:
  "fst (assemble muCtx
         (removeStacksByStatus [logsBucket, pipeWeb, untagged, envProd, svcWeb]
            [StackStatusRollbackComplete]) start) =
     [ServiceInput ''web'', ServiceUndeployer ''mu'' ''prod'',
      EnvironmentServiceTerminator ''prod'', EnvironmentDbTerminator ''prod'',
      EnvironmentEcsTerminator ''mu'' ''prod'', EnvironmentConsulTerminator ''mu'' ''prod'',
      EnvironmentRolesetTerminator ''prod'', EnvironmentElbTerminator ''mu'' ''prod'',
      EnvironmentVpcTerminator ''mu'' ''prod'',
      ServiceFinder ''web'', PipelineTerminator ''mu'', PipelineRolesetTerminator,
      BucketTerminator logsBucket]"
  using purge_plan_order [of muCtx "[logsBucket, pipeWeb, untagged, envProd, svcWeb]" start]
  by (simp add: removeStacksByStatus_filter filterStacksByType_filter stack_consts tag_def
      serviceSteps_def environmentSteps_def pipelineSteps_def muCtx_def
      logsBucket_def pipeWeb_def untagged_def envProd_def svcWeb_def)


section \<open>The purge run\<close>

lemma snd_tableLoop:
  "\<exists>rows. snd (tableLoop ss n st) = \<lparr>world = world st, trace = trace st @ rows\<rparr>
          \<and> callsOf rows = [] \<and> filter isExecutorFailed rows = []"
proof (induction ss arbitrary: n st)
  case Nil
  show ?case by (rule exI [of _ "[]"]) simp
next
  case (Cons s ss)
  show ?case
  proof (cases "Tags s ''type''")
    case None
    with Cons.IH [of n st] show ?thesis by simp
  next
    case (Some t)
    let ?row = "TableAppend t (Name s) (Status s, StatusReason s) (StatusReason s)
                  (LastUpdateTime s)"
    from Cons.IH [of "n + 1" "emit ?row st"] obtain rows where
      r: "snd (tableLoop ss (n + 1) (emit ?row st)) =
            \<lparr>world = world st, trace = (trace st @ [?row]) @ rows\<rparr>"
         "callsOf rows = []" "filter isExecutorFailed rows = []"
      by (auto simp: emit_def)
    have "snd (tableLoop (s # ss) n st) = \<lparr>world = world st, trace = trace st @ (?row # rows)\<rparr>"
      using r(1) by (simp add: Some)
    moreover have "callsOf (?row # rows) = []" "filter isExecutorFailed (?row # rows) = []"
      using r(2,3) by simp_all
    ultimately show ?thesis by blast
  qed
qed

lemma plan_start:
  "\<exists>st6. purgeWorker c cx st =
       (case newPipelineExecutorNoStop c
               (fst (assemble cx (removeStacksByStatus (fst (listAll c cx st))
                                    [StackStatusRollbackComplete]) st')) st6 of
          (Panics, st7) \<Rightarrow> (Panics, st7)
        | (Returns dropped, st7) \<Rightarrow> (Returns None, st7))
     \<and> world st6 = world (snd (listAll c cx st))
     \<and> callsOf (trace st6) = callsOf (trace (snd (listAll c cx st)))
     \<and> filter isExecutorFailed (trace st6) =
         filter isExecutorFailed (trace (snd (listAll c cx st)))"
proof -
  let ?S = "removeStacksByStatus (fst (listAll c cx st)) [StackStatusRollbackComplete]"
  let ?st2 = "emit TableCreate (snd (listAll c cx st))"
  obtain rows where r: "snd (tableLoop ?S 0 ?st2) =
      \<lparr>world = world ?st2, trace = trace ?st2 @ rows\<rparr>"
      "callsOf rows = []" "filter isExecutorFailed rows = []"
    using snd_tableLoop [of ?S 0 ?st2] by blast
  let ?st4 = "emit TableRender (snd (tableLoop ?S 0 ?st2))"
  let ?st6 = "emit (Log (InfoTotal (fst (tableLoop ?S 0 ?st2))
                       (length (fst (assemble cx ?S ?st4))))) (snd (assemble cx ?S ?st4))"
  have p: "fst (assemble cx ?S ?st4) = fst (assemble cx ?S st')"
    by (simp add: fst_assemble)
  have "purgeWorker c cx st =
       (case newPipelineExecutorNoStop c (fst (assemble cx ?S ?st4)) ?st6 of
          (Panics, st7) \<Rightarrow> (Panics, st7)
        | (Returns dropped, st7) \<Rightarrow> (Returns None, st7))"
    by (simp add: purgeWorker_def Let_def split_def)
  then have a: "purgeWorker c cx st =
       (case newPipelineExecutorNoStop c (fst (assemble cx ?S st')) ?st6 of
          (Panics, st7) \<Rightarrow> (Panics, st7)
        | (Returns dropped, st7) \<Rightarrow> (Returns None, st7))"
    by (simp only: p)
  have t: "trace ?st6 = trace (snd (listAll c cx st)) @ [TableCreate] @ rows @ [TableRender]
      @ map (\<lambda>b. Log (InfoBucket (Name b) (Tags b))) (filterStacksByType ?S StackTypeBucket)
      @ [Log (InfoTotal (fst (tableLoop ?S 0 ?st2)) (length (fst (assemble cx ?S ?st4))))]"
    by (simp add: trace_emit snd_assemble r(1))
  have w: "world ?st6 = world (snd (listAll c cx st))"
    by (simp add: world_emit snd_assemble r(1))
  have m1: "callsOf (map (\<lambda>b. Log (InfoBucket (Name b) (Tags b))) bs) = []" for bs :: "stack list"
    by (induction bs) simp_all
  have m2: "filter isExecutorFailed (map (\<lambda>b. Log (InfoBucket (Name b) (Tags b))) bs) = []"
    for bs :: "stack list"
    by (induction bs) simp_all
  have c: "callsOf (trace ?st6) = callsOf (trace (snd (listAll c cx st)))"
    by (simp only: t callsOf_append r(2) m1) simp
  have f: "filter isExecutorFailed (trace ?st6) =
         filter isExecutorFailed (trace (snd (listAll c cx st)))"
    by (simp only: t filter_append r(3) m2) simp
  from a w c f show ?thesis by blast
qed

lemma listAll_eq:
  "ListStacks c (StackTypeAll cx) (world st) = ((stacks, err), w1) \<Longrightarrow>
   listAll c cx st =
     (stacks,
      \<lparr>world = w1,
       trace = trace st @ Call (ListStacksCall (StackTypeAll cx))
                 # (case err of None \<Rightarrow> [] | Some e \<Rightarrow> [Log WarningCouldntListStacks])\<rparr>)"
  by (simp add: listAll_def invoke_def emit_def split: option.split)

lemma listAll_quiet:
  "callsOf (trace (snd (listAll c cx st))) = callsOf (trace st) @ [ListStacksCall (StackTypeAll cx)]
   \<and> filter isExecutorFailed (trace (snd (listAll c cx st))) = filter isExecutorFailed (trace st)
   \<and> world (snd (listAll c cx st)) = snd (ListStacks c (StackTypeAll cx) (world st))"
proof -
  obtain stacks err w1 where l: "ListStacks c (StackTypeAll cx) (world st) = ((stacks, err), w1)"
    by (cases "ListStacks c (StackTypeAll cx) (world st)") auto
  show ?thesis
    by (cases err) (simp_all add: listAll_eq [OF l] l callsOf_append)
qed

lemma never_an_error: "fst (purgeWorker c cx st) \<noteq> Returns (Some e)"
  by (simp add: purgeWorker_def Let_def split_def split: prod.split outcome.split)

lemma NewPurge_eq: "NewPurge c cx st = purgeWorker c cx st"
proof (cases "purgeWorker c cx st")
  case (Pair r s)
  show ?thesis
  proof (cases r)
    case Panics
    with Pair show ?thesis by (simp add: NewPurge_def newPipelineExecutor_def)
  next
    case (Returns x)
    with Pair never_an_error [of c cx st] have "x = None"
      by (cases x) auto
    with Pair Returns show ?thesis by (simp add: NewPurge_def newPipelineExecutor_def)
  qed
qed

lemma map_filter_append:
  "List.map_filter f (xs @ ys) = List.map_filter f xs @ List.map_filter f ys"
  by (simp add: List.map_filter_def)

lemma started_drains: "List.map_filter started (map DeleteS3BucketObjectsCall ns) = []"
  by (induction ns) (simp_all add: List.map_filter_simps)

lemma started_bucket_deletes: "List.map_filter started (map DeleteS3BucketCall ns) = []"
  by (induction ns) (simp_all add: List.map_filter_simps)

lemma quiet_drainEvents: "filter isExecutorFailed (concat (map drainEvents ns)) = []"
  by (induction ns) (simp_all add: drainEvents_def)

lemma quiet_deleteStackStep:
  "filter isExecutorFailed (trace (deleteStackStep c b st)) = filter isExecutorFailed (trace st)"
  by (simp add: deleteStackStep_def Let_def split_def trace_invoke trace_emit
      split: option.split)

lemma quiet_awaitStep:
  "filter isExecutorFailed (trace (awaitStep c b st)) = filter isExecutorFailed (trace st)"
  by (simp add: awaitStep_def Let_def split_def trace_invoke trace_emit
      split: option.split)

lemma quiet_deleteBucketLoop:
  "filter isExecutorFailed (trace (snd (deleteBucketLoop c rs st))) =
   filter isExecutorFailed (trace st)"
  by (induction rs arbitrary: st)
     (simp_all add: Let_def split_def trace_invoke trace_emit split: option.split)

lemma quiet_bucketTerminator:
  assumes "GetResourcesForStack c b (world st) = ((rs, None), w1)"
    and "map PhysicalResourceId rs = map Some ns"
  shows "filter isExecutorFailed (trace (snd (bucketTerminator c b st))) =
         filter isExecutorFailed (trace st)"
  by (simp add: bucketTerminator_present [OF assms] quiet_deleteBucketLoop quiet_awaitStep
      quiet_deleteStackStep drainLoop_present [OF assms(2)] quiet_drainEvents)

lemma runExecutor_bucket:
  assumes "idsPresent c"
  shows "fst (runExecutor c (BucketTerminator b) st) =
           Returns (fst (stepOutcome c (BucketTerminator b) (world st)))
     \<and> world (snd (runExecutor c (BucketTerminator b) st)) =
         snd (stepOutcome c (BucketTerminator b) (world st))
     \<and> startedExecutors (trace (snd (runExecutor c (BucketTerminator b) st))) =
         startedExecutors (trace st) @ [BucketTerminator b]
     \<and> filter isExecutorFailed (trace (snd (runExecutor c (BucketTerminator b) st))) =
         filter isExecutorFailed (trace st)"
proof -
  obtain rs err w1 where g: "GetResourcesForStack c b (world st) = ((rs, err), w1)"
    by (cases "GetResourcesForStack c b (world st)") auto
  show ?thesis
  proof (cases err)
    case (Some e)
    with g have f: "GetResourcesForStack c b (world st) = ((rs, Some e), w1)" by simp
    show ?thesis
      by (simp add: runExecutor_def bucketTerminator_failed [OF f] stepOutcome_def f
          startedExecutors_def callsOf_append map_filter_append List.map_filter_simps)
  next
    case None
    with g have f: "GetResourcesForStack c b (world st) = ((rs, None), w1)" by simp
    from assms f have "\<forall>r \<in> set rs. PhysicalResourceId r \<noteq> None"
      unfolding idsPresent_def by (metis fst_conv snd_conv)
    then have i: "map PhysicalResourceId rs = map Some (List.map_filter PhysicalResourceId rs)"
      by (rule ids_present)
    have fb: "fst (bucketTerminator c b st) = Returns None"
      by (simp add: bucketTerminator_present [OF f i])
    note wb = world_bucketTerminator_present [OF f i]
    note qb = quiet_bucketTerminator [OF f i]
    have sb: "startedExecutors (trace (snd (bucketTerminator c b st))) =
              startedExecutors (trace st) @ [BucketTerminator b]"
      by (simp add: calls_bucketTerminator_present [OF f i] startedExecutors_def
          map_filter_append List.map_filter_simps started_drains started_bucket_deletes)
    have so: "stepOutcome c (BucketTerminator b) (world st) =
              (None, bucketWorld c b (List.map_filter PhysicalResourceId rs) w1)"
      by (simp add: stepOutcome_def f)
    have re: "runExecutor c (BucketTerminator b) st = bucketTerminator c b st"
      by (simp add: runExecutor_def)
    show ?thesis
      by (simp only: re fb wb qb sb so fst_conv snd_conv simp_thms)
  qed
qed

lemma runExecutor_sibling:
  assumes "\<And>b. e \<noteq> BucketTerminator b"
  shows "fst (runExecutor c e st) = Returns (fst (stepOutcome c e (world st)))
     \<and> world (snd (runExecutor c e st)) = snd (stepOutcome c e (world st))
     \<and> startedExecutors (trace (snd (runExecutor c e st))) = startedExecutors (trace st) @ [e]
     \<and> filter isExecutorFailed (trace (snd (runExecutor c e st))) =
         filter isExecutorFailed (trace st)"
proof (cases e)
  case (BucketTerminator b)
  with assms show ?thesis by blast
qed (simp_all add: runExecutor_def stepOutcome_def invoke_def split_def startedExecutors_def
       callsOf_append map_filter_append List.map_filter_simps)

lemma runExecutor_stepOutcome:
  assumes "idsPresent c"
  shows "fst (runExecutor c e st) = Returns (fst (stepOutcome c e (world st)))
     \<and> world (snd (runExecutor c e st)) = snd (stepOutcome c e (world st))
     \<and> startedExecutors (trace (snd (runExecutor c e st))) = startedExecutors (trace st) @ [e]
     \<and> filter isExecutorFailed (trace (snd (runExecutor c e st))) =
         filter isExecutorFailed (trace st)"
proof (cases "\<exists>b. e = BucketTerminator b")
  case True
  then show ?thesis using runExecutor_bucket [OF assms] by blast
next
  case False
  then show ?thesis using runExecutor_sibling [of e c st] by blast
qed

lemma length_everyStep: "length (fst (everyStep c es w)) = length es"
  by (induction es arbitrary: w) (simp_all add: split_def Let_def)

lemma failureLog_Cons:
  "failureLog (r # rs) =
     (case r of None \<Rightarrow> [] | Some x \<Rightarrow> [Log (WarningExecutorFailed x)]) @ failureLog rs"
  by (cases r) (simp_all add: failureLog_def List.map_filter_simps)

lemma runNoStop_everyStep:
  assumes "idsPresent c"
  shows "fst (runNoStop c es st) = Returns ()
     \<and> world (snd (runNoStop c es st)) = snd (everyStep c es (world st))
     \<and> startedExecutors (trace (snd (runNoStop c es st))) = startedExecutors (trace st) @ es
     \<and> filter isExecutorFailed (trace (snd (runNoStop c es st))) =
         filter isExecutorFailed (trace st) @ failureLog (fst (everyStep c es (world st)))"
proof (induction es arbitrary: st)
  case Nil
  show ?case by (simp add: failureLog_def List.map_filter_simps)
next
  case (Cons e es)
  obtain st1 where r: "runExecutor c e st = (Returns (fst (stepOutcome c e (world st))), st1)"
    using runExecutor_stepOutcome [OF assms, of e st] by (cases "runExecutor c e st") auto
  from runExecutor_stepOutcome [OF assms, of e st] r have
    w: "world st1 = snd (stepOutcome c e (world st))"
    and s: "startedExecutors (trace st1) = startedExecutors (trace st) @ [e]"
    and q: "filter isExecutorFailed (trace st1) = filter isExecutorFailed (trace st)"
    by simp_all
  let ?err = "fst (stepOutcome c e (world st))"
  let ?st2 = "case ?err of None \<Rightarrow> st1 | Some x \<Rightarrow> emit (Log (WarningExecutorFailed x)) st1"
  have n: "runNoStop c (e # es) st = runNoStop c es ?st2"
    by (simp add: r)
  have w2: "world ?st2 = snd (stepOutcome c e (world st))"
    by (cases ?err) (simp_all add: w world_emit)
  have s2: "startedExecutors (trace ?st2) = startedExecutors (trace st) @ [e]"
    using s by (cases ?err) (simp_all add: trace_emit startedExecutors_def callsOf_append)
  have q2: "filter isExecutorFailed (trace ?st2) =
      filter isExecutorFailed (trace st)
        @ (case ?err of None \<Rightarrow> [] | Some x \<Rightarrow> [Log (WarningExecutorFailed x)])"
    by (cases ?err) (simp_all add: q trace_emit)
  have e: "everyStep c (e # es) (world st) =
      (?err # fst (everyStep c es (world ?st2)), snd (everyStep c es (world ?st2)))"
    by (simp add: split_def Let_def w2)
  show ?case
    using Cons.IH [of ?st2]
    by (simp only: n e fst_conv snd_conv s2 q2 failureLog_Cons append_assoc append_Cons append_Nil)
qed

lemma purgeWorker_everyStep:
  assumes i: "idsPresent c"
  shows "fst (purgeWorker c cx st) = Returns None
     \<and> startedExecutors (trace (snd (purgeWorker c cx st))) =
         startedExecutors (trace st)
           @ fst (assemble cx (removeStacksByStatus (fst (listAll c cx st))
                                 [StackStatusRollbackComplete]) st)
     \<and> world (snd (purgeWorker c cx st)) =
         snd (everyStep c
                (fst (assemble cx (removeStacksByStatus (fst (listAll c cx st))
                                     [StackStatusRollbackComplete]) st))
                (snd (ListStacks c (StackTypeAll cx) (world st))))
     \<and> filter isExecutorFailed (trace (snd (purgeWorker c cx st))) =
         filter isExecutorFailed (trace st)
           @ failureLog (fst (everyStep c
                (fst (assemble cx (removeStacksByStatus (fst (listAll c cx st))
                                     [StackStatusRollbackComplete]) st))
                (snd (ListStacks c (StackTypeAll cx) (world st)))))"
proof -
  let ?plan = "fst (assemble cx (removeStacksByStatus (fst (listAll c cx st))
                                        [StackStatusRollbackComplete]) st)"
  let ?listed = "snd (ListStacks c (StackTypeAll cx) (world st))"
  obtain st6 where p: "purgeWorker c cx st =
       (case newPipelineExecutorNoStop c ?plan st6 of
          (Panics, st7) \<Rightarrow> (Panics, st7)
        | (Returns dropped, st7) \<Rightarrow> (Returns None, st7))"
    and w: "world st6 = world (snd (listAll c cx st))"
    and k: "callsOf (trace st6) = callsOf (trace (snd (listAll c cx st)))"
    and f: "filter isExecutorFailed (trace st6) =
         filter isExecutorFailed (trace (snd (listAll c cx st)))"
    using plan_start [of c cx st st] by blast
  note l = listAll_quiet [of c cx st]
  note r = runNoStop_everyStep [OF i, of ?plan st6]
  have n: "runNoStop c ?plan st6 = (Returns (), snd (runNoStop c ?plan st6))"
    using r by (cases "runNoStop c ?plan st6") simp
  have q: "purgeWorker c cx st = (Returns None, snd (runNoStop c ?plan st6))"
    by (simp only: p newPipelineExecutorNoStop_def) (subst n, simp)
  have s0: "startedExecutors (trace st6) = startedExecutors (trace st)"
    using l by (simp add: startedExecutors_def k map_filter_append List.map_filter_simps)
  have w0: "world st6 = ?listed" using l w by simp
  have f0: "filter isExecutorFailed (trace st6) = filter isExecutorFailed (trace st)"
    using l f by simp
  show ?thesis
    using r by (simp only: q fst_conv snd_conv s0 w0 f0)
qed

lemma idsPresent_failingManager: "idsPresent (failingManager ss)"
  by (simp add: idsPresent_def failingManager_def logsResources_def)

lemma listAll_failingManager:
  "listAll (failingManager ss) muCtx start =
   (ss, \<lparr>world = 1, trace = [Call (ListStacksCall ''all'')]\<rparr>)"
  by (simp add: listAll_def invoke_def failingManager_def start_def muCtx_def)

text \<open>
  Claim C3. The purge worker never returns an error, and \<open>NewPurge\<close> does what the worker
  does. For collaborators whose resources carry their physical ids, the worker returns
  nil and the run is the continue-on-error run of the whole plan: every executor of the
  plan is started exactly once and in the order of the plan; the world the run leaves
  is the one that \<open>everyStep\<close> leaves, where each executor has run in the world that the
  one before left, whether that one failed or not; and the warnings in the log are, in
  order, the errors that the executors returned.
\<close>

theorem purge_runs_whole_plan:
  "fst (purgeWorker c cx st) \<noteq> Returns (Some e)
   \<and> NewPurge c cx st = purgeWorker c cx st
   \<and> (idsPresent c \<longrightarrow>
        (let plan = fst (assemble cx (removeStacksByStatus (fst (listAll c cx st))
                                        [StackStatusRollbackComplete]) st);
             listed = snd (ListStacks c (StackTypeAll cx) (world st))
         in fst (purgeWorker c cx st) = Returns None
            \<and> startedExecutors (trace (snd (purgeWorker c cx st))) =
                startedExecutors (trace st) @ plan
            \<and> length (fst (everyStep c plan listed)) = length plan
            \<and> world (snd (purgeWorker c cx st)) = snd (everyStep c plan listed)
            \<and> filter isExecutorFailed (trace (snd (purgeWorker c cx st))) =
                filter isExecutorFailed (trace st) @ failureLog (fst (everyStep c plan listed))))"
  unfolding Let_def
  using purgeWorker_everyStep [of c cx st]
  by (simp add: never_an_error NewPurge_eq length_everyStep)

theorem purge_runs_whole_plan_witness:
  "idsPresent (failingManager [logsBucket, svcWeb])
   \<and> fst (purgeWorker (failingManager [logsBucket, svcWeb]) muCtx start) = Returns None
   \<and> startedExecutors (trace (snd (purgeWorker (failingManager [logsBucket, svcWeb]) muCtx start))) =
       [ServiceInput ''web'', ServiceUndeployer ''mu'' ''prod'', BucketTerminator logsBucket]
   \<and> filter isExecutorFailed
       (trace (snd (purgeWorker (failingManager [logsBucket, svcWeb]) muCtx start))) =
       [Log (WarningExecutorFailed (OtherError ''step failed'')),
        Log (WarningExecutorFailed (OtherError ''step failed''))]
   \<and> world (snd (purgeWorker (failingManager [logsBucket, svcWeb]) muCtx start)) = 10"
proof -
  let ?c = "failingManager [logsBucket, svcWeb]"
  have p: "fst (assemble muCtx (removeStacksByStatus [logsBucket, svcWeb]
                   [StackStatusRollbackComplete]) start) =
           [ServiceInput ''web'', ServiceUndeployer ''mu'' ''prod'', BucketTerminator logsBucket]"
    by (simp add: fst_assemble removeStacksByStatus_filter filterStacksByType_filter stack_consts
        tag_def serviceSteps_def muCtx_def logsBucket_def svcWeb_def)
  have l: "snd (ListStacks ?c (StackTypeAll muCtx) (world start)) = 1"
    by (simp add: failingManager_def start_def)
  have e: "everyStep ?c
             [ServiceInput ''web'', ServiceUndeployer ''mu'' ''prod'', BucketTerminator logsBucket] 1 =
           ([Some (OtherError ''step failed''), Some (OtherError ''step failed''), None], 10)"
    by (simp add: stepOutcome_def bucketWorld_def failingManager_def logsResources_def
        List.map_filter_simps)
  have t: "trace start = []" by (simp add: start_def)
  note run = purge_runs_whole_plan [of ?c muCtx start,
      unfolded Let_def listAll_failingManager fst_conv p l e]
  from run idsPresent_failingManager [of "[logsBucket, svcWeb]"]
  show ?thesis
    by (simp add: t startedExecutors_def failureLog_def List.map_filter_simps)
qed

text \<open>
  Claim C7, as amended. When \<open>ListStacks\<close> returns an error, the purge run logs a warning
  and goes on with the stacks that \<open>ListStacks\<close> returned together with the error; it
  neither stops nor returns the error. With collaborators whose resources carry their
  ids it returns nil after starting the whole plan of those stacks. When no stacks came
  back with the error, the run is an empty pass: it renders an empty table, logs a total
  of no stacks and no steps, makes no call but the listing and returns nil. The claim as
  written fails when stacks come back with the error: they are purged, as the
  counterexample shows.
\<close>

theorem list_failure_keeps_returned_stacks:
  assumes "ListStacks c (StackTypeAll cx) (world st) = ((stacks, Some e), w1)"
  shows "listAll c cx st =
           (stacks,
            \<lparr>world = w1,
             trace = trace st @ [Call (ListStacksCall (StackTypeAll cx)),
                                 Log WarningCouldntListStacks]\<rparr>)
         \<and> fst (purgeWorker c cx st) \<noteq> Returns (Some x)
         \<and> NewPurge c cx st = purgeWorker c cx st
         \<and> (idsPresent c \<longrightarrow>
              fst (purgeWorker c cx st) = Returns None
              \<and> startedExecutors (trace (snd (purgeWorker c cx st))) =
                  startedExecutors (trace st)
                    @ fst (assemble cx (removeStacksByStatus stacks [StackStatusRollbackComplete]) st))
         \<and> (stacks = [] \<longrightarrow>
              purgeWorker c cx st =
                (Returns None,
                 \<lparr>world = w1,
                  trace = trace st @ [Call (ListStacksCall (StackTypeAll cx)),
                                      Log WarningCouldntListStacks,
                                      TableCreate, TableRender, Log (InfoTotal 0 0)]\<rparr>))"
proof -
  have l: "listAll c cx st =
           (stacks,
            \<lparr>world = w1,
             trace = trace st @ [Call (ListStacksCall (StackTypeAll cx)),
                                 Log WarningCouldntListStacks]\<rparr>)"
    by (simp add: listAll_eq [OF assms])
  have i: "fst (purgeWorker c cx st) = Returns None
          \<and> startedExecutors (trace (snd (purgeWorker c cx st))) =
              startedExecutors (trace st)
                @ fst (assemble cx (removeStacksByStatus stacks [StackStatusRollbackComplete]) st)"
    if "idsPresent c"
    using purgeWorker_everyStep [OF that, of cx st] by (simp add: l)
  have n: "purgeWorker c cx st =
                (Returns None,
                 \<lparr>world = w1,
                  trace = trace st @ [Call (ListStacksCall (StackTypeAll cx)),
                                      Log WarningCouldntListStacks,
                                      TableCreate, TableRender, Log (InfoTotal 0 0)]\<rparr>)"
    if "stacks = []"
  proof -
    have r: "removeStacksByStatus [] [StackStatusRollbackComplete] = []"
      by (simp add: removeStacksByStatus_def)
    have a: "assemble cx [] s = ([], s)" for s :: "'a state"
      by (simp add: assemble_def filterStacksByType_def)
    show ?thesis
      by (simp add: purgeWorker_def l that r a emit_def newPipelineExecutorNoStop_def)
  qed
  from l i n show ?thesis
    by (simp add: never_an_error NewPurge_eq)
qed

theorem list_failure_keeps_returned_stacks_witness:
  "ListStacks offlineManager (StackTypeAll muCtx) (world start) =
     (([], Some (AwsError ''RequestError'')), 1)
   \<and> purgeWorker offlineManager muCtx start =
     (Returns None,
      \<lparr>world = 1,
       trace = [Call (ListStacksCall ''all''), Log WarningCouldntListStacks,
                TableCreate, TableRender, Log (InfoTotal 0 0)]\<rparr>)"
proof -
  have h: "ListStacks offlineManager (StackTypeAll muCtx) (world start) =
           (([], Some (AwsError ''RequestError'')), 1)"
    by (simp add: offlineManager_def start_def)
  from list_failure_keeps_returned_stacks [OF h] h show ?thesis
    by (simp add: start_def muCtx_def)
qed

lemmas run_purge = purgeWorker_def listAll_def invoke_def emit_def Let_def
  newPipelineExecutorNoStop_def runExecutor_def assemble_def

theorem list_failure_counterexample:
  "ListStacks interruptedManager (StackTypeAll muCtx) (world start) =
     (([svcWeb], Some (AwsError ''Throttling'')), 1)
   \<and> purgeWorker interruptedManager muCtx start =
     (Returns None,
      \<lparr>world = 3,
       trace = [Call (ListStacksCall ''all''), Log WarningCouldntListStacks,
                TableCreate,
                TableAppend ''service'' ''svc-web'' (''UPDATE_COMPLETE'', []) [] 0,
                TableRender, Log (InfoTotal 1 2),
                Call (SiblingCall (ServiceInput ''web'')),
                Call (SiblingCall (ServiceUndeployer ''mu'' ''prod''))]\<rparr>)"
  by (simp add: run_purge interruptedManager_def offlineManager_def start_def muCtx_def
      removeStacksByStatus_filter filterStacksByType_filter stack_consts tag_def svcWeb_def)

lemma single_service_plan:
  assumes "tag s ''type'' = StackTypeService" and "Status s \<noteq> StackStatusRollbackComplete"
  shows "fst (assemble cx (removeStacksByStatus [s] [StackStatusRollbackComplete]) st) =
         [ServiceInput (tag s ''service''),
          ServiceUndeployer (Namespace cx) (tag s ''environment'')]"
  using assms
  by (simp add: fst_assemble removeStacksByStatus_filter filterStacksByType_filter
      serviceSteps_def StackTypeService_def StackTypeEnv_def StackTypePipeline_def
      StackTypeBucket_def)

lemma two_siblings_return:
  "fst (runNoStop c [ServiceInput a, ServiceUndeployer n e] st) = Returns ()"
  by (simp add: runExecutor_def split_def Let_def)

text \<open>
  Claim C6. The plan of every inventory starts with two steps for each service stack
  that the status filter leaves: \<open>serviceInput\<close> with the \<open>service\<close> tag and then
  \<open>serviceUndeployer\<close> with the namespace and the \<open>environment\<close> tag of the stack (the
  spec's undeploy step and service terminator step). When the inventory is one service
  stack that is not in the rolled-back status, the plan is exactly these two steps and
  the run returns no error.
\<close>

theorem service_stack_two_steps:
  "(\<exists>rest. fst (assemble cx (removeStacksByStatus inventory [StackStatusRollbackComplete]) st) =
      concat (map (\<lambda>s. [ServiceInput (tag s ''service''),
                          ServiceUndeployer (Namespace cx) (tag s ''environment'')])
                (filterStacksByType
                   (removeStacksByStatus inventory [StackStatusRollbackComplete])
                   StackTypeService))
      @ rest)
   \<and> (tag s ''type'' = StackTypeService \<and> Status s \<noteq> StackStatusRollbackComplete
        \<and> ListStacks c (StackTypeAll cx) (world st0) = (([s], err), w1) \<longrightarrow>
        fst (assemble cx (removeStacksByStatus (fst (listAll c cx st0))
                            [StackStatusRollbackComplete]) st) =
          [ServiceInput (tag s ''service''),
           ServiceUndeployer (Namespace cx) (tag s ''environment'')]
        \<and> fst (purgeWorker c cx st0) = Returns None
        \<and> fst (NewPurge c cx st0) = Returns None)"
proof (intro conjI impI)
  have e: "serviceSteps cx = (\<lambda>s. [ServiceInput (tag s ''service''),
                          ServiceUndeployer (Namespace cx) (tag s ''environment'')])"
    by (rule ext) (simp add: serviceSteps_def)
  show "\<exists>rest. fst (assemble cx (removeStacksByStatus inventory [StackStatusRollbackComplete]) st) =
      concat (map (\<lambda>s. [ServiceInput (tag s ''service''),
                          ServiceUndeployer (Namespace cx) (tag s ''environment'')])
                (filterStacksByType
                   (removeStacksByStatus inventory [StackStatusRollbackComplete])
                   StackTypeService))
      @ rest"
    unfolding e [symmetric] by (simp add: fst_assemble)
next
  assume a: "tag s ''type'' = StackTypeService \<and> Status s \<noteq> StackStatusRollbackComplete
        \<and> ListStacks c (StackTypeAll cx) (world st0) = (([s], err), w1)"
  then have l: "fst (listAll c cx st0) = [s]"
    by (simp add: listAll_eq)
  show "fst (assemble cx (removeStacksByStatus (fst (listAll c cx st0))
                            [StackStatusRollbackComplete]) st) =
          [ServiceInput (tag s ''service''),
           ServiceUndeployer (Namespace cx) (tag s ''environment'')]"
    using a by (simp add: l single_service_plan)
  obtain st6 where p: "purgeWorker c cx st0 =
       (case newPipelineExecutorNoStop c
               (fst (assemble cx (removeStacksByStatus (fst (listAll c cx st0))
                                    [StackStatusRollbackComplete]) st0)) st6 of
          (Panics, st7) \<Rightarrow> (Panics, st7)
        | (Returns dropped, st7) \<Rightarrow> (Returns None, st7))"
    using plan_start [of c cx st0 st0] by blast
  have q: "fst (assemble cx (removeStacksByStatus (fst (listAll c cx st0))
                                    [StackStatusRollbackComplete]) st0) =
          [ServiceInput (tag s ''service''),
           ServiceUndeployer (Namespace cx) (tag s ''environment'')]"
    using a by (simp add: l single_service_plan)
  obtain st7 where r: "runNoStop c [ServiceInput (tag s ''service''),
           ServiceUndeployer (Namespace cx) (tag s ''environment'')] st6 = (Returns (), st7)"
    using two_siblings_return [of c "tag s ''service''" "Namespace cx" "tag s ''environment''" st6]
    by (cases "runNoStop c [ServiceInput (tag s ''service''),
           ServiceUndeployer (Namespace cx) (tag s ''environment'')] st6") simp
  show w: "fst (purgeWorker c cx st0) = Returns None"
    by (simp only: p q newPipelineExecutorNoStop_def r) simp
  show "fst (NewPurge c cx st0) = Returns None"
    by (simp add: NewPurge_eq w)
qed

theorem service_stack_two_steps_witness:
  "tag svcWeb ''type'' = StackTypeService \<and> Status svcWeb \<noteq> StackStatusRollbackComplete
   \<and> ListStacks (failingManager [svcWeb]) (StackTypeAll muCtx) (world start) =
       (([svcWeb], None), 1)
   \<and> fst (assemble muCtx
            (removeStacksByStatus (fst (listAll (failingManager [svcWeb]) muCtx start))
               [StackStatusRollbackComplete]) start) =
       [ServiceInput ''web'', ServiceUndeployer ''mu'' ''prod'']
   \<and> fst (purgeWorker (failingManager [svcWeb]) muCtx start) = Returns None
   \<and> fst (NewPurge (failingManager [svcWeb]) muCtx start) = Returns None"
proof -
  have h: "tag svcWeb ''type'' = StackTypeService \<and> Status svcWeb \<noteq> StackStatusRollbackComplete
        \<and> ListStacks (failingManager [svcWeb]) (StackTypeAll muCtx) (world start) =
            (([svcWeb], None), 1)"
    by (simp add: tag_def svcWeb_def stack_consts failingManager_def start_def)
  have v: "tag svcWeb ''service'' = ''web''" "tag svcWeb ''environment'' = ''prod''"
    "Namespace muCtx = ''mu''"
    by (simp_all add: tag_def svcWeb_def muCtx_def)
  from service_stack_two_steps
    [of muCtx "[svcWeb]" start svcWeb "failingManager [svcWeb]" start None 1]
    h show ?thesis
    by (simp add: v)
qed

end
